theory Spec2Isabelle
  imports Main "HOL-Library.Word"
begin

unbundle bit_operations_syntax

section \<open>The DS1302 driver (components/ds1302/ds1302.c)\<close>

subsection \<open>Platform: GPIO, delay and the critical region\<close>

text \<open>
  The driver talks to the chip through the platform's GPIO calls and brackets each
  transaction with \<open>portENTER_CRITICAL\<close> / \<open>portEXIT_CRITICAL\<close>. The platform is the
  environment of the code: a \<open>world\<close> holds what the platform will answer and what the
  driver did to it.
  \<^item> \<open>gpio_errs\<close>: the results of the coming fallible GPIO calls (\<open>gpio_config\<close>,
    \<open>gpio_set_direction\<close>, \<open>gpio_set_level\<close>), one per call, in order; once the list is
    used up every call returns \<open>ESP_OK\<close>.
  \<^item> \<open>io_levels\<close>: the levels the coming \<open>gpio_get_level\<close> calls sample, in order;
    once used up the line reads 0.
  \<^item> \<open>crit\<close>: the nesting depth of the critical region (enter adds one, exit takes one).
  \<^item> \<open>trace\<close>: every platform call made so far, oldest first.
\<close>

text \<open>
  \<open>esp_err_t\<close> is the platform's \<open>int\<close> error code; \<open>ESP_OK\<close> and \<open>ESP_ERR_INVALID_ARG\<close>
  have the values of the platform's \<open>esp_err.h\<close>. A GPIO level is 0 or 1, a \<open>bool\<close> here.
\<close>

type_synonym u8 = "8 word"
type_synonym esp_err_t = int
type_synonym gpio_num_t = nat

abbreviation ESP_OK :: esp_err_t where "ESP_OK \<equiv> 0"
abbreviation ESP_ERR_INVALID_ARG :: esp_err_t where "ESP_ERR_INVALID_ARG \<equiv> 0x102"

datatype gpio_mode_t = GPIO_MODE_INPUT | GPIO_MODE_OUTPUT

datatype event =
    GpioConfig "64 word" gpio_mode_t
  | SetDirection gpio_num_t gpio_mode_t
  | SetLevel gpio_num_t bool
  | GetLevel gpio_num_t bool
  | DelayUs nat
  | EnterCritical
  | ExitCritical

record world =
  gpio_errs :: "esp_err_t list"
  io_levels :: "bool list"
  crit :: int
  trace :: "event list"

definition gpio_call :: "world \<Rightarrow> event \<Rightarrow> esp_err_t \<times> world" where
  "gpio_call w ev =
     (case gpio_errs w of
        [] \<Rightarrow> (ESP_OK, w\<lparr>trace := trace w @ [ev]\<rparr>)
      | e # es \<Rightarrow> (e, w\<lparr>gpio_errs := es, trace := trace w @ [ev]\<rparr>))"

definition gpio_config :: "world \<Rightarrow> 64 word \<Rightarrow> gpio_mode_t \<Rightarrow> esp_err_t \<times> world" where
  "gpio_config w pin_bit_mask mode = gpio_call w (GpioConfig pin_bit_mask mode)"

definition gpio_set_direction :: "world \<Rightarrow> gpio_num_t \<Rightarrow> gpio_mode_t \<Rightarrow> esp_err_t \<times> world" where
  "gpio_set_direction w pin mode = gpio_call w (SetDirection pin mode)"

definition gpio_set_level :: "world \<Rightarrow> gpio_num_t \<Rightarrow> bool \<Rightarrow> esp_err_t \<times> world" where
  "gpio_set_level w pin level = gpio_call w (SetLevel pin level)"

definition gpio_get_level :: "world \<Rightarrow> gpio_num_t \<Rightarrow> bool \<times> world" where
  "gpio_get_level w pin =
     (case io_levels w of
        [] \<Rightarrow> (False, w\<lparr>trace := trace w @ [GetLevel pin False]\<rparr>)
      | v # vs \<Rightarrow> (v, w\<lparr>io_levels := vs, trace := trace w @ [GetLevel pin v]\<rparr>))"

definition ets_delay_us :: "world \<Rightarrow> nat \<Rightarrow> world" where
  "ets_delay_us w us = w\<lparr>trace := trace w @ [DelayUs us]\<rparr>"

definition PORT_ENTER_CRITICAL :: "world \<Rightarrow> world" where
  "PORT_ENTER_CRITICAL w = w\<lparr>crit := crit w + 1, trace := trace w @ [EnterCritical]\<rparr>"

definition PORT_EXIT_CRITICAL :: "world \<Rightarrow> world" where
  "PORT_EXIT_CRITICAL w = w\<lparr>crit := crit w - 1, trace := trace w @ [ExitCritical]\<rparr>"

subsection \<open>Constants and macros\<close>

definition CH_REG :: u8 where "CH_REG = 0x80"
definition WP_REG :: u8 where "WP_REG = 0x8e"

definition CH_BIT :: u8 where "CH_BIT = push_bit 7 1"
definition WP_BIT :: u8 where "WP_BIT = push_bit 7 1"
definition HOUR12_BIT :: u8 where "HOUR12_BIT = push_bit 7 1"
definition PM_BIT :: u8 where "PM_BIT = push_bit 5 1"

definition CH_MASK :: u8 where "CH_MASK = NOT CH_BIT"
definition WP_MASK :: u8 where "WP_MASK = NOT WP_BIT"

definition CLOCK_BURST :: u8 where "CLOCK_BURST = 0xbe"
definition RAM_BURST :: u8 where "RAM_BURST = 0xfe"

definition SECONDS_MASK :: u8 where "SECONDS_MASK = 0x7f"
definition HOUR12_MASK :: u8 where "HOUR12_MASK = 0x1f"
definition HOUR24_MASK :: u8 where "HOUR24_MASK = 0x3f"

text \<open>\<open>GPIO_BIT(x)\<close> is \<open>1ULL << x\<close>, a 64-bit mask.\<close>

definition GPIO_BIT :: "gpio_num_t \<Rightarrow> 64 word" where
  "GPIO_BIT x = push_bit x 1"

text \<open>
  \<open>CHECK(x)\<close> returns the error of \<open>x\<close> at once; \<open>CHECK_MUX(x)\<close> leaves the critical
  region first. The continuation is the rest of the function body.
\<close>

definition CHECK :: "esp_err_t \<times> world \<Rightarrow> (world \<Rightarrow> esp_err_t \<times> world) \<Rightarrow> esp_err_t \<times> world" where
  "CHECK x k = (case x of (e, w) \<Rightarrow> if e \<noteq> ESP_OK then (e, w) else k w)"

definition CHECK_MUX :: "esp_err_t \<times> world \<Rightarrow> (world \<Rightarrow> esp_err_t \<times> world) \<Rightarrow> esp_err_t \<times> world" where
  "CHECK_MUX x k = (case x of (e, w) \<Rightarrow> if e \<noteq> ESP_OK then (e, PORT_EXIT_CRITICAL w) else k w)"

subsection \<open>The device handle and the BCD codec\<close>

record ds1302_t =
  ce_pin :: gpio_num_t
  io_pin :: gpio_num_t
  sclk_pin :: gpio_num_t
  ch :: bool

text \<open>
  The handle \<open>ds1302_t\<close> is declared in \<open>ds1302.h\<close>; the driver uses these four fields.
  The arithmetic of the codec is done in \<open>int\<close> in C and truncated to \<open>uint8_t\<close> on
  return, which is arithmetic on 8-bit words.
\<close>

definition bcd2dec :: "u8 \<Rightarrow> u8" where
  "bcd2dec val = drop_bit 4 val * 10 + (val AND 0x0f)"

definition dec2bcd :: "u8 \<Rightarrow> u8" where
  "dec2bcd val = push_bit 4 (val div 10) + val mod 10"

subsection \<open>Bit-level transport and framing\<close>

definition chip_enable :: "world \<Rightarrow> ds1302_t \<Rightarrow> esp_err_t \<times> world" where
  "chip_enable w dev =
     CHECK (gpio_set_level w (ce_pin dev) True) (\<lambda>w.
     (ESP_OK, ets_delay_us w 4))"

definition chip_disable :: "world \<Rightarrow> ds1302_t \<Rightarrow> esp_err_t \<times> world" where
  "chip_disable w dev = gpio_set_level w (ce_pin dev) False"

definition prepare :: "world \<Rightarrow> ds1302_t \<Rightarrow> gpio_mode_t \<Rightarrow> esp_err_t \<times> world" where
  "prepare w dev mode =
     CHECK (gpio_set_direction w (io_pin dev) mode) (\<lambda>w.
     CHECK (gpio_set_level w (sclk_pin dev) False) (\<lambda>w.
     chip_enable w dev))"

definition toggle_clock :: "world \<Rightarrow> ds1302_t \<Rightarrow> esp_err_t \<times> world" where
  "toggle_clock w dev =
     CHECK (gpio_set_level w (sclk_pin dev) True) (\<lambda>w.
     CHECK (gpio_set_level (ets_delay_us w 1) (sclk_pin dev) False) (\<lambda>w.
     (ESP_OK, ets_delay_us w 1)))"

text \<open>
  The loop of \<open>write_byte\<close>, from counter \<open>i\<close> on. The counter is a \<open>uint8_t\<close> that stays
  below 8, so it never wraps.
\<close>

function write_byte_loop :: "world \<Rightarrow> ds1302_t \<Rightarrow> u8 \<Rightarrow> nat \<Rightarrow> esp_err_t \<times> world" where
  "write_byte_loop w dev b i =
     (if i < 8 then
        (case gpio_set_level w (io_pin dev) (bit b i) of (e, w1) \<Rightarrow>
           if e \<noteq> ESP_OK then (e, w1)
           else (case toggle_clock w1 dev of (e, w2) \<Rightarrow>
             if e \<noteq> ESP_OK then (e, w2)
             else write_byte_loop w2 dev b (Suc i)))
      else (ESP_OK, w))"
  by pat_completeness auto
termination
  by (relation "measure (\<lambda>(w, dev, b, i). 8 - i)") auto

declare write_byte_loop.simps [simp del]

definition write_byte :: "world \<Rightarrow> ds1302_t \<Rightarrow> u8 \<Rightarrow> esp_err_t \<times> world" where
  "write_byte w dev b = write_byte_loop w dev b 0"

text \<open>
  The loop of \<open>read_byte\<close>: \<open>b\<close> is the byte assembled so far in \<open>*b\<close>. A failing clock
  pulse returns with the bits sampled so far already stored.
\<close>

function read_byte_loop :: "world \<Rightarrow> ds1302_t \<Rightarrow> u8 \<Rightarrow> nat \<Rightarrow> esp_err_t \<times> u8 \<times> world" where
  "read_byte_loop w dev b i =
     (if i < 8 then
        (case gpio_get_level w (io_pin dev) of (v, w1) \<Rightarrow>
           let b1 = b OR push_bit i (of_bool v) in
           (case toggle_clock w1 dev of (e, w2) \<Rightarrow>
              if e \<noteq> ESP_OK then (e, b1, w2)
              else read_byte_loop w2 dev b1 (Suc i)))
      else (ESP_OK, b, w))"
  by pat_completeness auto
termination
  by (relation "measure (\<lambda>(w, dev, b, i). 8 - i)") auto

declare read_byte_loop.simps [simp del]

definition read_byte :: "world \<Rightarrow> ds1302_t \<Rightarrow> esp_err_t \<times> u8 \<times> world" where
  "read_byte w dev = read_byte_loop w dev 0 0"

subsection \<open>Register and burst access\<close>

text \<open>
  \<open>val\<close> is the content of \<open>*val\<close> before the call; the second component of the result
  is its content afterwards. It is untouched when the transaction fails before
  \<open>read_byte\<close>, and holds the bits sampled so far when \<open>read_byte\<close> fails.
\<close>

definition read_register :: "world \<Rightarrow> ds1302_t \<Rightarrow> u8 \<Rightarrow> u8 \<Rightarrow> esp_err_t \<times> u8 \<times> world" where
  "read_register w dev reg val =
     (case prepare (PORT_ENTER_CRITICAL w) dev GPIO_MODE_OUTPUT of (e, w) \<Rightarrow>
        if e \<noteq> ESP_OK then (e, val, PORT_EXIT_CRITICAL w) else
     (case write_byte w dev (reg OR 0x01) of (e, w) \<Rightarrow>
        if e \<noteq> ESP_OK then (e, val, PORT_EXIT_CRITICAL w) else
     (case prepare w dev GPIO_MODE_INPUT of (e, w) \<Rightarrow>
        if e \<noteq> ESP_OK then (e, val, PORT_EXIT_CRITICAL w) else
     (case read_byte w dev of (e, val, w) \<Rightarrow>
        if e \<noteq> ESP_OK then (e, val, PORT_EXIT_CRITICAL w) else
     (case chip_disable (PORT_EXIT_CRITICAL w) dev of (e, w) \<Rightarrow> (e, val, w))))))"

text \<open>
  The last statement before \<open>chip_disable\<close> in \<open>write_register\<close> is a second
  \<open>PORT_ENTER_CRITICAL\<close> (line 135 of the source), where the sibling functions have
  \<open>PORT_EXIT_CRITICAL\<close>.
\<close>

definition write_register :: "world \<Rightarrow> ds1302_t \<Rightarrow> u8 \<Rightarrow> u8 \<Rightarrow> esp_err_t \<times> world" where
  "write_register w dev reg val =
     CHECK_MUX (prepare (PORT_ENTER_CRITICAL w) dev GPIO_MODE_OUTPUT) (\<lambda>w.
     CHECK_MUX (write_byte w dev reg) (\<lambda>w.
     CHECK_MUX (write_byte w dev val) (\<lambda>w.
     chip_disable (PORT_ENTER_CRITICAL w) dev)))"

text \<open>
  The loops of the burst functions. The counter \<open>i\<close> and the bound \<open>len\<close> are \<open>uint8_t\<close>;
  the counter stays at or below the bound, so it never wraps, and it is a \<open>nat\<close> here.
  A failing byte leaves the critical region inside the loop (\<open>CHECK_MUX\<close>) and ends the
  function. \<open>dst\<close> is the memory behind the pointer before the call, the result holds
  it afterwards; the caller provides at least \<open>len\<close> bytes.
\<close>

function burst_read_loop :: "world \<Rightarrow> ds1302_t \<Rightarrow> u8 list \<Rightarrow> nat \<Rightarrow> nat \<Rightarrow> esp_err_t \<times> u8 list \<times> world" where
  "burst_read_loop w dev dst i len =
     (if i < len then
        (case read_byte w dev of (e, b, w1) \<Rightarrow>
           if e \<noteq> ESP_OK then (e, dst[i := b], PORT_EXIT_CRITICAL w1)
           else burst_read_loop w1 dev (dst[i := b]) (Suc i) len)
      else (ESP_OK, dst, w))"
  by pat_completeness auto
termination
  by (relation "measure (\<lambda>(w, dev, dst, i, len). len - i)") auto

declare burst_read_loop.simps [simp del]

definition burst_read :: "world \<Rightarrow> ds1302_t \<Rightarrow> u8 \<Rightarrow> u8 list \<Rightarrow> u8 \<Rightarrow> esp_err_t \<times> u8 list \<times> world" where
  "burst_read w dev reg dst len =
     (case prepare (PORT_ENTER_CRITICAL w) dev GPIO_MODE_OUTPUT of (e, w) \<Rightarrow>
        if e \<noteq> ESP_OK then (e, dst, PORT_EXIT_CRITICAL w) else
     (case write_byte w dev (reg OR 0x01) of (e, w) \<Rightarrow>
        if e \<noteq> ESP_OK then (e, dst, PORT_EXIT_CRITICAL w) else
     (case prepare w dev GPIO_MODE_INPUT of (e, w) \<Rightarrow>
        if e \<noteq> ESP_OK then (e, dst, PORT_EXIT_CRITICAL w) else
     (case burst_read_loop w dev dst 0 (unat len) of (e, dst, w) \<Rightarrow>
        if e \<noteq> ESP_OK then (e, dst, w) else
     (case chip_disable (PORT_EXIT_CRITICAL w) dev of (e, w) \<Rightarrow> (e, dst, w))))))"

function burst_write_loop :: "world \<Rightarrow> ds1302_t \<Rightarrow> u8 list \<Rightarrow> nat \<Rightarrow> nat \<Rightarrow> esp_err_t \<times> world" where
  "burst_write_loop w dev src i len =
     (if i < len then
        (case write_byte w dev (src ! i) of (e, w1) \<Rightarrow>
           if e \<noteq> ESP_OK then (e, PORT_EXIT_CRITICAL w1)
           else burst_write_loop w1 dev src (Suc i) len)
      else (ESP_OK, w))"
  by pat_completeness auto
termination
  by (relation "measure (\<lambda>(w, dev, src, i, len). len - i)") auto

declare burst_write_loop.simps [simp del]

definition burst_write :: "world \<Rightarrow> ds1302_t \<Rightarrow> u8 \<Rightarrow> u8 list \<Rightarrow> u8 \<Rightarrow> esp_err_t \<times> world" where
  "burst_write w dev reg src len =
     CHECK_MUX (prepare (PORT_ENTER_CRITICAL w) dev GPIO_MODE_OUTPUT) (\<lambda>w.
     CHECK_MUX (write_byte w dev reg) (\<lambda>w.
     CHECK (burst_write_loop w dev src 0 (unat len)) (\<lambda>w.
     chip_disable (PORT_EXIT_CRITICAL w) dev)))"

text \<open>
  The local \<open>r\<close> of \<open>update_register\<close> is uninitialised in the source and read only after
  \<open>read_register\<close> succeeded and stored to it; it starts as 0 here.
\<close>

definition update_register :: "world \<Rightarrow> ds1302_t \<Rightarrow> u8 \<Rightarrow> u8 \<Rightarrow> u8 \<Rightarrow> esp_err_t \<times> world" where
  "update_register w dev reg msk val =
     (case read_register w dev reg 0 of (e, r, w) \<Rightarrow>
        if e \<noteq> ESP_OK then (e, w)
        else write_register w dev reg ((r AND msk) OR val))"

subsection \<open>Public operations\<close>

text \<open>
  A pointer argument is an \<open>option\<close>: \<open>None\<close> is the null pointer, \<open>Some x\<close> points to
  \<open>x\<close>. An operation that stores through a pointer returns the pointee afterwards.
  Results are ordered: error code, handle (where the operation stores to it), out
  parameter (where there is one), world.
\<close>

definition ds1302_is_running :: "world \<Rightarrow> ds1302_t option \<Rightarrow> bool option \<Rightarrow>
    esp_err_t \<times> ds1302_t option \<times> bool option \<times> world" where
  "ds1302_is_running w devp runningp =
     (case devp of None \<Rightarrow> (ESP_ERR_INVALID_ARG, devp, runningp, w) | Some dev \<Rightarrow>
     (case runningp of None \<Rightarrow> (ESP_ERR_INVALID_ARG, devp, runningp, w) | Some _ \<Rightarrow>
     (case read_register w dev CH_REG 0 of (e, r, w) \<Rightarrow>
        if e \<noteq> ESP_OK then (e, devp, runningp, w)
        else (let running = \<not> (r AND CH_BIT \<noteq> 0)
              in (ESP_OK, Some (dev\<lparr>ch := \<not> running\<rparr>), Some running, w)))))"

text \<open>
  \<open>ds1302_init\<close> passes the address of its local \<open>bool r\<close>, uninitialised in the source
  and \<open>False\<close> here, to \<open>ds1302_is_running\<close>; \<open>rp = Some True\<close> below is the value of \<open>r\<close>
  after the call.
\<close>

definition ds1302_init :: "world \<Rightarrow> ds1302_t option \<Rightarrow> esp_err_t \<times> ds1302_t option \<times> world" where
  "ds1302_init w devp =
     (case devp of None \<Rightarrow> (ESP_ERR_INVALID_ARG, devp, w) | Some dev \<Rightarrow>
     (case gpio_config w
             (GPIO_BIT (ce_pin dev) OR GPIO_BIT (io_pin dev) OR GPIO_BIT (sclk_pin dev))
             GPIO_MODE_OUTPUT of (e, w) \<Rightarrow>
        if e \<noteq> ESP_OK then (e, devp, w) else
     (case ds1302_is_running w devp (Some False) of (e, devp, rp, w) \<Rightarrow>
        if e \<noteq> ESP_OK then (e, devp, w)
        else (ESP_OK, map_option (\<lambda>d. d\<lparr>ch := \<not> (rp = Some True)\<rparr>) devp, w))))"

definition ds1302_start :: "world \<Rightarrow> ds1302_t option \<Rightarrow> bool \<Rightarrow> esp_err_t \<times> ds1302_t option \<times> world" where
  "ds1302_start w devp start =
     (case devp of None \<Rightarrow> (ESP_ERR_INVALID_ARG, devp, w) | Some dev \<Rightarrow>
     (case update_register w dev CH_REG CH_MASK (if start then 0 else CH_BIT) of (e, w) \<Rightarrow>
        if e \<noteq> ESP_OK then (e, devp, w)
        else (ESP_OK, Some (dev\<lparr>ch := \<not> start\<rparr>), w)))"

definition ds1302_set_write_protect :: "world \<Rightarrow> ds1302_t option \<Rightarrow> bool \<Rightarrow> esp_err_t \<times> world" where
  "ds1302_set_write_protect w devp wp =
     (case devp of None \<Rightarrow> (ESP_ERR_INVALID_ARG, w) | Some dev \<Rightarrow>
        update_register w dev WP_REG WP_MASK (if wp then WP_BIT else 0))"

definition ds1302_get_write_protect :: "world \<Rightarrow> ds1302_t option \<Rightarrow> bool option \<Rightarrow>
    esp_err_t \<times> bool option \<times> world" where
  "ds1302_get_write_protect w devp wpp =
     (case devp of None \<Rightarrow> (ESP_ERR_INVALID_ARG, wpp, w) | Some dev \<Rightarrow>
     (case wpp of None \<Rightarrow> (ESP_ERR_INVALID_ARG, wpp, w) | Some _ \<Rightarrow>
     (case read_register w dev WP_REG 0 of (e, r, w) \<Rightarrow>
        if e \<noteq> ESP_OK then (e, wpp, w)
        else (ESP_OK, Some (r AND WP_BIT \<noteq> 0), w))))"

text \<open>
  \<open>struct tm\<close> of the C library; its fields are \<open>int\<close>. The driver keeps the full year in
  \<open>tm_year\<close> (it subtracts 2000 on the way to the chip).
\<close>

record tm =
  tm_sec :: int
  tm_min :: int
  tm_hour :: int
  tm_mday :: int
  tm_mon :: int
  tm_year :: int
  tm_wday :: int
  tm_yday :: int
  tm_isdst :: int

text \<open>
  The assignments of \<open>ds1302_get_time\<close> (lines 241 to 254) from the seven bytes read,
  to the pointee \<open>t\<close>; \<open>bcd2dec\<close> returns a \<open>uint8_t\<close> that is promoted to \<open>int\<close> before
  the subtraction or addition.
\<close>

definition get_time_fields :: "u8 list \<Rightarrow> tm \<Rightarrow> tm" where
  "get_time_fields buf t =
     t\<lparr> tm_sec := uint (bcd2dec (buf ! 0 AND SECONDS_MASK)),
        tm_min := uint (bcd2dec (buf ! 1)),
        tm_hour :=
          (if buf ! 2 AND HOUR12_BIT \<noteq> 0
           then (let h = uint (bcd2dec (buf ! 2 AND HOUR12_MASK)) - 1
                 in if buf ! 2 AND PM_BIT \<noteq> 0 then h + 12 else h)
           else uint (bcd2dec (buf ! 2 AND HOUR24_MASK))),
        tm_mday := uint (bcd2dec (buf ! 3)),
        tm_mon := uint (bcd2dec (buf ! 4)) - 1,
        tm_wday := uint (bcd2dec (buf ! 5)) - 1,
        tm_year := uint (bcd2dec (buf ! 6)) + 2000 \<rparr>"

text \<open>The local \<open>buf[7]\<close> is uninitialised in the source; every byte is stored before it is read.\<close>

definition ds1302_get_time :: "world \<Rightarrow> ds1302_t option \<Rightarrow> tm option \<Rightarrow> esp_err_t \<times> tm option \<times> world" where
  "ds1302_get_time w devp timep =
     (case devp of None \<Rightarrow> (ESP_ERR_INVALID_ARG, timep, w) | Some dev \<Rightarrow>
     (case timep of None \<Rightarrow> (ESP_ERR_INVALID_ARG, timep, w) | Some t \<Rightarrow>
     (case burst_read w dev CLOCK_BURST (replicate 7 0) 7 of (e, buf, w) \<Rightarrow>
        if e \<noteq> ESP_OK then (e, timep, w)
        else (ESP_OK, Some (get_time_fields buf t), w))))"

text \<open>
  The initialiser of \<open>buf[8]\<close> in \<open>ds1302_set_time\<close> (lines 264 to 273). The \<open>int\<close> fields
  are converted to the \<open>uint8_t\<close> parameter of \<open>dec2bcd\<close>.
\<close>

definition set_time_buf :: "ds1302_t \<Rightarrow> tm \<Rightarrow> u8 list" where
  "set_time_buf dev t =
     [ dec2bcd (word_of_int (tm_sec t)) OR (if ch dev then CH_BIT else 0),
       dec2bcd (word_of_int (tm_min t)),
       dec2bcd (word_of_int (tm_hour t)),
       dec2bcd (word_of_int (tm_mday t)),
       dec2bcd (word_of_int (tm_mon t + 1)),
       dec2bcd (word_of_int (tm_wday t + 1)),
       dec2bcd (word_of_int (tm_year t - 2000)),
       0 ]"

definition ds1302_set_time :: "world \<Rightarrow> ds1302_t option \<Rightarrow> tm option \<Rightarrow> esp_err_t \<times> world" where
  "ds1302_set_time w devp timep =
     (case devp of None \<Rightarrow> (ESP_ERR_INVALID_ARG, w) | Some dev \<Rightarrow>
     (case timep of None \<Rightarrow> (ESP_ERR_INVALID_ARG, w) | Some t \<Rightarrow>
        burst_write w dev CLOCK_BURST (set_time_buf dev t) 8))"

text \<open>
  \<open>DS1302_RAM_SIZE\<close> is declared in \<open>ds1302.h\<close>, which is not among the sources: it is the
  parameter \<open>ram_size\<close>. \<open>offset + len\<close> is computed in \<open>int\<close>, so it does not wrap.
\<close>

definition ds1302_read_sram :: "nat \<Rightarrow> world \<Rightarrow> ds1302_t option \<Rightarrow> u8 \<Rightarrow> u8 list option \<Rightarrow> u8 \<Rightarrow>
    esp_err_t \<times> u8 list option \<times> world" where
  "ds1302_read_sram ram_size w devp offset bufp len =
     (case devp of None \<Rightarrow> (ESP_ERR_INVALID_ARG, bufp, w) | Some dev \<Rightarrow>
     (case bufp of None \<Rightarrow> (ESP_ERR_INVALID_ARG, bufp, w) | Some buf \<Rightarrow>
        if len = 0 then (ESP_ERR_INVALID_ARG, bufp, w)
        else if \<not> (unat offset + unat len \<le> ram_size) then (ESP_ERR_INVALID_ARG, bufp, w)
        else (case burst_read w dev RAM_BURST buf len of (e, buf, w) \<Rightarrow> (e, Some buf, w))))"

definition ds1302_write_sram :: "nat \<Rightarrow> world \<Rightarrow> ds1302_t option \<Rightarrow> u8 \<Rightarrow> u8 list option \<Rightarrow> u8 \<Rightarrow>
    esp_err_t \<times> world" where
  "ds1302_write_sram ram_size w devp offset bufp len =
     (case devp of None \<Rightarrow> (ESP_ERR_INVALID_ARG, w) | Some dev \<Rightarrow>
     (case bufp of None \<Rightarrow> (ESP_ERR_INVALID_ARG, w) | Some buf \<Rightarrow>
        if len = 0 then (ESP_ERR_INVALID_ARG, w)
        else if \<not> (unat offset + unat len \<le> ram_size) then (ESP_ERR_INVALID_ARG, w)
        else burst_write w dev RAM_BURST buf len))"

subsection \<open>Observing the wire\<close>

text \<open>
  The functions of this part are not code of the driver: they read a run of the model so
  that properties of the bus can be stated. A byte travels least significant bit first.
\<close>

definition bits_of_byte :: "u8 \<Rightarrow> bool list" where
  "bits_of_byte b = map (bit b) [0..<8]"

definition byte_of_bits :: "bool list \<Rightarrow> u8" where
  "byte_of_bits bs = horner_sum of_bool 2 bs"

function bytes_of_bits :: "bool list \<Rightarrow> u8 list" where
  "bytes_of_bits bs =
     (if length bs < 8 then [] else byte_of_bits (take 8 bs) # bytes_of_bits (drop 8 bs))"
  by pat_completeness auto

termination
  by (relation "measure length") auto

declare bytes_of_bits.simps [simp del]

text \<open>
  What the chip sees of a trace. The state is the level of the data line, its direction
  and the bits clocked out so far: while the data line is an output, each rising edge of
  the serial clock transfers the level the data line holds.
\<close>

definition wire_step :: "ds1302_t \<Rightarrow> event \<Rightarrow> bool \<times> gpio_mode_t \<times> bool list \<Rightarrow> bool \<times> gpio_mode_t \<times> bool list" where
  "wire_step dev ev s =
     (case s of (lvl, dir, out) \<Rightarrow>
        (case ev of
           SetDirection p m \<Rightarrow> if p = io_pin dev then (lvl, m, out) else s
         | SetLevel p v \<Rightarrow>
             if p = sclk_pin dev then (if v \<and> dir = GPIO_MODE_OUTPUT then (lvl, dir, out @ [lvl]) else s)
             else if p = io_pin dev then (v, dir, out)
             else s
         | _ \<Rightarrow> s))"

text \<open>The bits and bytes a trace clocks out to the chip.\<close>

definition tx_bits :: "ds1302_t \<Rightarrow> event list \<Rightarrow> bool list" where
  "tx_bits dev tr = snd (snd (fold (wire_step dev) tr (False, GPIO_MODE_INPUT, [])))"

definition tx_bytes :: "ds1302_t \<Rightarrow> event list \<Rightarrow> u8 list" where
  "tx_bytes dev tr = bytes_of_bits (tx_bits dev tr)"

text \<open>The platform calls made between the worlds \<open>w\<close> and \<open>w'\<close>.\<close>

definition new_events :: "world \<Rightarrow> world \<Rightarrow> event list" where
  "new_events w w' = drop (length (trace w)) (trace w')"

text \<open>
  The levels the next \<open>n\<close> calls of \<open>gpio_get_level\<close> return: the head of \<open>io_levels\<close>, then
  0 once the list is used up.
\<close>

fun next_levels :: "nat \<Rightarrow> bool list \<Rightarrow> bool list" where
  "next_levels 0 vs = []"
| "next_levels (Suc n) [] = False # next_levels n []"
| "next_levels (Suc n) (v # vs) = v # next_levels n vs"

definition sampled :: "nat \<Rightarrow> world \<Rightarrow> bool list" where
  "sampled n w = next_levels n (io_levels w)"

text \<open>The three lines of a handle are three different pins.\<close>

definition pins_distinct :: "ds1302_t \<Rightarrow> bool" where
  "pins_distinct dev = distinct [ce_pin dev, io_pin dev, sclk_pin dev]"

text \<open>The platform calls of one clock pulse, of \<open>prepare\<close>, and of a byte written or read.\<close>

definition clock_events :: "ds1302_t \<Rightarrow> event list" where
  "clock_events dev = [SetLevel (sclk_pin dev) True, DelayUs 1, SetLevel (sclk_pin dev) False, DelayUs 1]"

definition prepare_events :: "ds1302_t \<Rightarrow> gpio_mode_t \<Rightarrow> event list" where
  "prepare_events dev mode =
     [SetDirection (io_pin dev) mode, SetLevel (sclk_pin dev) False, SetLevel (ce_pin dev) True, DelayUs 4]"

definition write_events :: "ds1302_t \<Rightarrow> bool list \<Rightarrow> event list" where
  "write_events dev bs = concat (map (\<lambda>v. SetLevel (io_pin dev) v # clock_events dev) bs)"

definition read_events :: "ds1302_t \<Rightarrow> bool list \<Rightarrow> event list" where
  "read_events dev bs = concat (map (\<lambda>v. GetLevel (io_pin dev) v # clock_events dev) bs)"

text \<open>The platform calls of the transactions that run to their end.\<close>

definition read_register_events :: "ds1302_t \<Rightarrow> u8 \<Rightarrow> bool list \<Rightarrow> event list" where
  "read_register_events dev reg bs =
     EnterCritical # prepare_events dev GPIO_MODE_OUTPUT @ write_events dev (bits_of_byte (reg OR 1)) @
     prepare_events dev GPIO_MODE_INPUT @ read_events dev bs @
     [ExitCritical, SetLevel (ce_pin dev) False]"

definition write_register_events :: "ds1302_t \<Rightarrow> u8 \<Rightarrow> u8 \<Rightarrow> event list" where
  "write_register_events dev reg val =
     EnterCritical # prepare_events dev GPIO_MODE_OUTPUT @ write_events dev (bits_of_byte reg) @
     write_events dev (bits_of_byte val) @ [EnterCritical, SetLevel (ce_pin dev) False]"

definition burst_write_events :: "ds1302_t \<Rightarrow> u8 \<Rightarrow> u8 list \<Rightarrow> event list" where
  "burst_write_events dev reg bytes =
     EnterCritical # prepare_events dev GPIO_MODE_OUTPUT @ write_events dev (bits_of_byte reg) @
     concat (map (\<lambda>b. write_events dev (bits_of_byte b)) bytes) @
     [ExitCritical, SetLevel (ce_pin dev) False]"

text \<open>Example inputs: a platform on which every call succeeds, a handle, a time record.\<close>

definition idle_world :: world where
  "idle_world = \<lparr>gpio_errs = [], io_levels = [], crit = 0, trace = []\<rparr>"

definition example_dev :: ds1302_t where
  "example_dev = \<lparr>ce_pin = 5, io_pin = 6, sclk_pin = 7, ch = False\<rparr>"

definition zero_tm :: tm where
  "zero_tm = \<lparr>tm_sec = 0, tm_min = 0, tm_hour = 0, tm_mday = 0, tm_mon = 0, tm_year = 0,
              tm_wday = 0, tm_yday = 0, tm_isdst = 0\<rparr>"

text \<open>
  The value of a byte read as binary-coded decimal (one decimal digit per nibble), and
  the hour a raw hour byte stands for, in the words of the specification: with the top
  bit set, the lower 5 bits as BCD, minus 1, plus 12 if the PM bit (bit 5) is set;
  otherwise the lower 6 bits as 24-hour BCD.
\<close>

definition bcd_value :: "int \<Rightarrow> int" where
  "bcd_value v = 10 * (v div 16) + v mod 16"

definition hour_of_raw :: "u8 \<Rightarrow> int" where
  "hour_of_raw h =
     (if bit h 7
      then bcd_value (uint h mod 32) - 1 + (if bit h 5 then 12 else 0)
      else bcd_value (uint h mod 64))"

text \<open>The enter and exit calls of a trace, in order.\<close>

definition critical_calls :: "event list \<Rightarrow> event list" where
  "critical_calls tr = filter (\<lambda>ev. ev = EnterCritical \<or> ev = ExitCritical) tr"

text \<open>A platform on which every call succeeds and the data line presents the given bytes.\<close>

definition world_presenting :: "u8 list \<Rightarrow> world" where
  "world_presenting bytes = idle_world\<lparr>io_levels := concat (map bits_of_byte bytes)\<rparr>"


text \<open>
  An example time record: 12:34:56 on Friday 25 December 2026, month and weekday in the
  numbering of \<open>struct tm\<close>, the year in full as the driver keeps it.
\<close>

definition example_tm :: tm where
  "example_tm = \<lparr>tm_sec = 56, tm_min = 34, tm_hour = 12, tm_mday = 25, tm_mon = 11, tm_year = 2026,
                 tm_wday = 5, tm_yday = 0, tm_isdst = 0\<rparr>"

text \<open>The \<open>gpio_get_level\<close> calls of a trace.\<close>

definition sample_calls :: "event list \<Rightarrow> event list" where
  "sample_calls tr = filter (\<lambda>ev. case ev of GetLevel p v \<Rightarrow> True | _ \<Rightarrow> False) tr"

text \<open>
  A platform whose first \<open>n\<close> fallible GPIO calls succeed and whose next one fails with
  \<open>ESP_FAIL\<close> (-1).
\<close>

definition world_failing_after :: "nat \<Rightarrow> world" where
  "world_failing_after n = idle_world\<lparr>gpio_errs := replicate n ESP_OK @ [-1]\<rparr>"

section \<open>Properties\<close>

lemma gpio_call_props:
  "gpio_call w ev = (e, w') \<Longrightarrow>
     trace w' = trace w @ [ev] \<and> crit w' = crit w \<and> io_levels w' = io_levels w"
  by (auto simp: gpio_call_def split: list.splits)

lemma gpio_set_level_props:
  "gpio_set_level w p v = (e, w') \<Longrightarrow>
     trace w' = trace w @ [SetLevel p v] \<and> crit w' = crit w \<and> io_levels w' = io_levels w"
  unfolding gpio_set_level_def by (rule gpio_call_props)

lemma gpio_set_direction_props:
  "gpio_set_direction w p m = (e, w') \<Longrightarrow>
     trace w' = trace w @ [SetDirection p m] \<and> crit w' = crit w \<and> io_levels w' = io_levels w"
  unfolding gpio_set_direction_def by (rule gpio_call_props)

lemma ets_delay_us_props [simp]:
  "trace (ets_delay_us w n) = trace w @ [DelayUs n]"
  "crit (ets_delay_us w n) = crit w"
  "io_levels (ets_delay_us w n) = io_levels w"
  by (simp_all add: ets_delay_us_def)

lemma toggle_clock_frame:
  "toggle_clock w dev = (e, w') \<Longrightarrow> crit w' = crit w \<and> io_levels w' = io_levels w"
  by (auto simp: toggle_clock_def CHECK_def split: prod.splits if_splits
           dest!: gpio_set_level_props)

lemma toggle_clock_ok:
  "toggle_clock w dev = (ESP_OK, w') \<Longrightarrow> trace w' = trace w @ clock_events dev"
  by (auto simp: toggle_clock_def CHECK_def clock_events_def split: prod.splits if_splits
           dest!: gpio_set_level_props)

lemma chip_enable_frame:
  "chip_enable w dev = (e, w') \<Longrightarrow> crit w' = crit w \<and> io_levels w' = io_levels w"
  by (auto simp: chip_enable_def CHECK_def split: prod.splits if_splits
           dest!: gpio_set_level_props)

lemma prepare_frame:
  "prepare w dev m = (e, w') \<Longrightarrow> crit w' = crit w \<and> io_levels w' = io_levels w"
  by (auto simp: prepare_def CHECK_def split: prod.splits if_splits
           dest!: gpio_set_level_props gpio_set_direction_props chip_enable_frame)

lemma prepare_ok:
  "prepare w dev m = (ESP_OK, w') \<Longrightarrow> trace w' = trace w @ prepare_events dev m"
  by (auto simp: prepare_def chip_enable_def CHECK_def prepare_events_def split: prod.splits if_splits
           dest!: gpio_set_level_props gpio_set_direction_props)

lemma chip_disable_props:
  "chip_disable w dev = (e, w') \<Longrightarrow>
     trace w' = trace w @ [SetLevel (ce_pin dev) False] \<and> crit w' = crit w \<and> io_levels w' = io_levels w"
  unfolding chip_disable_def by (rule gpio_set_level_props)

lemma write_byte_loop_props:
  "write_byte_loop w dev b i = (e, w') \<Longrightarrow>
     crit w' = crit w \<and> io_levels w' = io_levels w \<and>
     (e = ESP_OK \<longrightarrow> trace w' = trace w @ write_events dev (map (bit b) [i..<8]))"
proof (induction w dev b i arbitrary: e w' rule: write_byte_loop.induct)
  case (1 w dev b i)
  show ?case
  proof (cases "i < 8")
    case False
    with "1.prems" write_byte_loop.simps [of w dev b i] show ?thesis
      by (simp add: write_events_def)
  next
    case True
    obtain e1 w1 where s1: "gpio_set_level w (io_pin dev) (bit b i) = (e1, w1)" by force
    obtain e2 w2 where s2: "toggle_clock w1 dev = (e2, w2)" by force
    note f1 = gpio_set_level_props [OF s1] and f2 = toggle_clock_frame [OF s2]
    show ?thesis
    proof (cases "e1 = ESP_OK \<and> e2 = ESP_OK")
      case ok: True
      with True s1 s2 "1.prems" write_byte_loop.simps [of w dev b i]
      have "write_byte_loop w2 dev b (Suc i) = (e, w')"
        by simp
      from "1.IH" [OF True s1 [symmetric] _ s2 [symmetric] _ this] ok f1 f2
        toggle_clock_ok [of w1 dev w2] s2 True
      show ?thesis by (simp add: write_events_def upt_conv_Cons)
    next
      case False
      with True s1 s2 "1.prems" f1 f2 write_byte_loop.simps [of w dev b i] show ?thesis
        by (auto split: if_splits)
    qed
  qed
qed

lemma write_byte_props:
  "write_byte w dev b = (e, w') \<Longrightarrow>
     crit w' = crit w \<and> io_levels w' = io_levels w \<and>
     (e = ESP_OK \<longrightarrow> trace w' = trace w @ write_events dev (bits_of_byte b))"
  unfolding write_byte_def bits_of_byte_def by (rule write_byte_loop_props)

lemma gpio_get_level_props:
  "gpio_get_level w p = (v, w') \<Longrightarrow>
     crit w' = crit w \<and> gpio_errs w' = gpio_errs w \<and> io_levels w' = drop 1 (io_levels w) \<and>
     sampled (Suc n) w = v # sampled n w' \<and> trace w' = trace w @ [GetLevel p v]"
  by (auto simp: gpio_get_level_def sampled_def split: list.splits)

lemma byte_of_bits_Cons:
  "push_bit i (byte_of_bits (v # bs)) = push_bit i (of_bool v) OR push_bit (Suc i) (byte_of_bits bs)"
  unfolding byte_of_bits_def
  by (rule bit_eqI)
     (auto simp add: bit_or_iff bit_push_bit_iff bit_horner_sum_bit_word_iff nth_Cons' bit_0
                     Suc_diff_Suc less_Suc_eq_le bit_1_iff
           simp del: horner_sum_simps push_bit_Suc)

lemma read_byte_loop_props:
  "read_byte_loop w dev b i = (e, b', w') \<Longrightarrow> i \<le> 8 \<Longrightarrow>
     crit w' = crit w \<and>
     (e = ESP_OK \<longrightarrow>
        b' = b OR push_bit i (byte_of_bits (sampled (8 - i) w)) \<and>
        io_levels w' = drop (8 - i) (io_levels w) \<and>
        trace w' = trace w @ read_events dev (sampled (8 - i) w))"
proof (induction w dev b i arbitrary: e b' w' rule: read_byte_loop.induct)
  case (1 w dev b i)
  show ?case
  proof (cases "i < 8")
    case False
    with "1.prems" read_byte_loop.simps [of w dev b i] show ?thesis
      by (simp add: read_events_def sampled_def byte_of_bits_def)
  next
    case True
    obtain v w1 where s1: "gpio_get_level w (io_pin dev) = (v, w1)" by force
    define b1 where "b1 = b OR push_bit i (of_bool v)"
    obtain e2 w2 where s2: "toggle_clock w1 dev = (e2, w2)" by force
    note f1 = gpio_get_level_props [OF s1, of "7 - i"] and f2 = toggle_clock_frame [OF s2]
    from True have sd: "8 - i = Suc (7 - i)" "8 - Suc i = 7 - i" by simp_all
    show ?thesis
    proof (cases "e2 = ESP_OK")
      case ok: True
      from "1.prems"(1) have r: "read_byte_loop w2 dev b1 (Suc i) = (e, b', w')"
        using True s1 s2 ok read_byte_loop.simps [of w dev b i]
        by (simp add: b1_def Let_def)
      from True have "Suc i \<le> 8" by simp
      from ok have nok: "\<not> e2 \<noteq> ESP_OK" by simp
      note ih = "1.IH" [OF True s1 [symmetric] refl s2 [symmetric] nok r [unfolded b1_def] \<open>Suc i \<le> 8\<close>]
      have sm: "sampled (7 - i) w2 = sampled (7 - i) w1"
        using f2 by (simp add: sampled_def)
      have tr: "trace w2 = trace w1 @ clock_events dev"
        using toggle_clock_ok s2 ok by simp
      from f1 have sv: "sampled (Suc (7 - i)) w = v # sampled (7 - i) w1" by simp
      have "b' = b OR push_bit i (byte_of_bits (sampled (8 - i) w))" if "e = ESP_OK"
      proof -
        from ih that
        have "b' = (b OR push_bit i (of_bool v)) OR
                   push_bit (Suc i) (byte_of_bits (sampled (8 - Suc i) w2))"
          by blast
        then have "b' = b OR (push_bit i (of_bool v) OR
                   push_bit (Suc i) (byte_of_bits (sampled (7 - i) w1)))"
          by (simp only: sd sm or.assoc)
        then show ?thesis
          by (simp only: sd sv byte_of_bits_Cons)
      qed
      moreover have "io_levels w' = drop (8 - i) (io_levels w)" if "e = ESP_OK"
        using ih that f1 f2 by (simp add: sd)
      moreover have "trace w' = trace w @ read_events dev (sampled (8 - i) w)" if "e = ESP_OK"
        using ih that f1 sm tr by (simp add: sd read_events_def)
      moreover have "crit w' = crit w"
        using ih f1 f2 by simp
      ultimately show ?thesis by blast
    next
      case False
      with True s1 s2 "1.prems"(1) f1 f2 read_byte_loop.simps [of w dev b i] show ?thesis
        by (simp add: Let_def)
    qed
  qed
qed

lemma read_byte_props:
  "read_byte w dev = (e, b, w') \<Longrightarrow>
     crit w' = crit w \<and>
     (e = ESP_OK \<longrightarrow>
        b = byte_of_bits (sampled 8 w) \<and> io_levels w' = drop 8 (io_levels w) \<and>
        trace w' = trace w @ read_events dev (sampled 8 w))"
  using read_byte_loop_props [of w dev 0 0 e b w'] by (simp add: read_byte_def)

lemma PORT_ENTER_CRITICAL_props [simp]:
  "crit (PORT_ENTER_CRITICAL w) = crit w + 1"
  "io_levels (PORT_ENTER_CRITICAL w) = io_levels w"
  "trace (PORT_ENTER_CRITICAL w) = trace w @ [EnterCritical]"
  by (simp_all add: PORT_ENTER_CRITICAL_def)

lemma PORT_EXIT_CRITICAL_props [simp]:
  "crit (PORT_EXIT_CRITICAL w) = crit w - 1"
  "io_levels (PORT_EXIT_CRITICAL w) = io_levels w"
  "trace (PORT_EXIT_CRITICAL w) = trace w @ [ExitCritical]"
  by (simp_all add: PORT_EXIT_CRITICAL_def)

lemma sampled_PORT [simp]:
  "sampled n (PORT_ENTER_CRITICAL w) = sampled n w"
  "sampled n (PORT_EXIT_CRITICAL w) = sampled n w"
  by (simp_all add: sampled_def)

lemma read_register_props:
  assumes "read_register w dev reg val = (e, val', w')"
  shows "crit w' = crit w"
    and "e = ESP_OK \<Longrightarrow> val' = byte_of_bits (sampled 8 w)"
    and "e = ESP_OK \<Longrightarrow> io_levels w' = drop 8 (io_levels w)"
    and "e = ESP_OK \<Longrightarrow> trace w' = trace w @ read_register_events dev reg (sampled 8 w)"
proof -
  obtain e1 w1 where s1: "prepare (PORT_ENTER_CRITICAL w) dev GPIO_MODE_OUTPUT = (e1, w1)" by force
  obtain e2 w2 where s2: "write_byte w1 dev (reg OR 1) = (e2, w2)" by force
  obtain e3 w3 where s3: "prepare w2 dev GPIO_MODE_INPUT = (e3, w3)" by force
  obtain e4 b4 w4 where s4: "read_byte w3 dev = (e4, b4, w4)" by (metis prod_cases3)
  obtain e5 w5 where s5: "chip_disable (PORT_EXIT_CRITICAL w4) dev = (e5, w5)" by force
  note f1 = prepare_frame [OF s1] and f2 = write_byte_props [OF s2] and f3 = prepare_frame [OF s3]
    and f4 = read_byte_props [OF s4] and f5 = chip_disable_props [OF s5]
  note t1 = prepare_ok [of "PORT_ENTER_CRITICAL w" dev GPIO_MODE_OUTPUT w1]
    and t3 = prepare_ok [of w2 dev GPIO_MODE_INPUT w3]
  have sm: "sampled 8 w3 = sampled 8 w"
    using f1 f2 f3 by (simp add: sampled_def)
  from assms s1 s2 s3 s4 s5 f1 f2 f3 f4 f5 show "crit w' = crit w"
    by (auto simp: read_register_def split: if_splits)
  assume ok: "e = ESP_OK"
  with assms s1 s2 s3 s4 s5 have oks: "e1 = ESP_OK" "e2 = ESP_OK" "e3 = ESP_OK" "e4 = ESP_OK" "e5 = ESP_OK"
    and res: "val' = b4" "w' = w5"
    by (auto simp: read_register_def split: if_splits)
  from res oks f4 sm show "val' = byte_of_bits (sampled 8 w)" by simp
  from res oks f1 f2 f3 f4 f5 show "io_levels w' = drop 8 (io_levels w)" by simp
  from res oks f1 f2 f3 f4 f5 t1 t3 s1 s3 sm
  show "trace w' = trace w @ read_register_events dev reg (sampled 8 w)"
    by (simp add: read_register_events_def)
qed

lemma write_register_props:
  assumes "write_register w dev reg val = (e, w')"
  shows "io_levels w' = io_levels w"
    and "crit w' = crit w \<or> crit w' = crit w + 2"
    and "e = ESP_OK \<Longrightarrow> crit w' = crit w + 2"
    and "e = ESP_OK \<Longrightarrow> trace w' = trace w @ write_register_events dev reg val"
proof -
  obtain e1 w1 where s1: "prepare (PORT_ENTER_CRITICAL w) dev GPIO_MODE_OUTPUT = (e1, w1)" by force
  obtain e2 w2 where s2: "write_byte w1 dev reg = (e2, w2)" by force
  obtain e3 w3 where s3: "write_byte w2 dev val = (e3, w3)" by force
  obtain e4 w4 where s4: "chip_disable (PORT_ENTER_CRITICAL w3) dev = (e4, w4)" by force
  note f1 = prepare_frame [OF s1] and f2 = write_byte_props [OF s2] and f3 = write_byte_props [OF s3]
    and f4 = chip_disable_props [OF s4]
  note t1 = prepare_ok [of "PORT_ENTER_CRITICAL w" dev GPIO_MODE_OUTPUT w1]
  from assms s1 s2 s3 s4 f1 f2 f3 f4 show "io_levels w' = io_levels w"
    by (auto simp: write_register_def CHECK_MUX_def split: if_splits)
  from assms s1 s2 s3 s4 f1 f2 f3 f4 show "crit w' = crit w \<or> crit w' = crit w + 2"
    by (auto simp: write_register_def CHECK_MUX_def split: if_splits)
  assume ok: "e = ESP_OK"
  with assms s1 s2 s3 s4 have oks: "e1 = ESP_OK" "e2 = ESP_OK" "e3 = ESP_OK" "e4 = ESP_OK"
    and res: "w' = w4"
    by (auto simp: write_register_def CHECK_MUX_def split: if_splits)
  from res oks f1 f2 f3 f4 show "crit w' = crit w + 2" by simp
  from res oks f1 f2 f3 f4 t1 s1
  show "trace w' = trace w @ write_register_events dev reg val"
    by (simp add: write_register_events_def)
qed

lemma burst_write_loop_props:
  "burst_write_loop w dev src i len = (e, w') \<Longrightarrow>
     io_levels w' = io_levels w \<and>
     crit w' = (if e = ESP_OK then crit w else crit w - 1) \<and>
     (e = ESP_OK \<longrightarrow>
        trace w' = trace w @ concat (map (\<lambda>k. write_events dev (bits_of_byte (src ! k))) [i..<len]))"
proof (induction w dev src i len arbitrary: e w' rule: burst_write_loop.induct)
  case (1 w dev src i len)
  note eq = burst_write_loop.simps [of w dev src i len]
  show ?case
  proof (cases "i < len")
    case False
    with "1.prems" eq show ?thesis by simp
  next
    case True
    obtain e1 w1 where s1: "write_byte w dev (src ! i) = (e1, w1)" by force
    note f1 = write_byte_props [OF s1]
    show ?thesis
    proof (cases "e1 = ESP_OK")
      case ok: True
      then have nok: "\<not> e1 \<noteq> ESP_OK" by simp
      from True s1 ok "1.prems" eq have r: "burst_write_loop w1 dev src (Suc i) len = (e, w')"
        by simp
      from "1.IH" [OF True s1 [symmetric] nok r] ok f1 True
      show ?thesis by (simp add: upt_conv_Cons)
    next
      case False
      with True s1 "1.prems" eq f1 show ?thesis by auto
    qed
  qed
qed

lemma burst_write_props:
  assumes "burst_write w dev reg src len = (e, w')"
  shows "io_levels w' = io_levels w"
    and "crit w' = crit w"
    and "e = ESP_OK \<Longrightarrow>
           trace w' = trace w @ burst_write_events dev reg (map ((!) src) [0..<unat len])"
proof -
  obtain e1 w1 where s1: "prepare (PORT_ENTER_CRITICAL w) dev GPIO_MODE_OUTPUT = (e1, w1)" by force
  obtain e2 w2 where s2: "write_byte w1 dev reg = (e2, w2)" by force
  obtain e3 w3 where s3: "burst_write_loop w2 dev src 0 (unat len) = (e3, w3)" by force
  obtain e4 w4 where s4: "chip_disable (PORT_EXIT_CRITICAL w3) dev = (e4, w4)" by force
  note f1 = prepare_frame [OF s1] and f2 = write_byte_props [OF s2]
    and f3 = burst_write_loop_props [OF s3] and f4 = chip_disable_props [OF s4]
  note t1 = prepare_ok [of "PORT_ENTER_CRITICAL w" dev GPIO_MODE_OUTPUT w1]
  from assms s1 s2 s3 s4 f1 f2 f3 f4 show "io_levels w' = io_levels w"
    by (auto simp: burst_write_def CHECK_MUX_def CHECK_def split: if_splits)
  from assms s1 s2 s3 s4 f1 f2 f3 f4 show "crit w' = crit w"
    by (auto simp: burst_write_def CHECK_MUX_def CHECK_def split: if_splits)
  assume ok: "e = ESP_OK"
  with assms s1 s2 s3 s4 have oks: "e1 = ESP_OK" "e2 = ESP_OK" "e3 = ESP_OK" "e4 = ESP_OK"
    and res: "w' = w4"
    by (auto simp: burst_write_def CHECK_MUX_def CHECK_def split: if_splits)
  from res oks f1 f2 f3 f4 t1 s1
  show "trace w' = trace w @ burst_write_events dev reg (map ((!) src) [0..<unat len])"
    by (simp add: burst_write_events_def comp_def)
qed

lemma length_next_levels [simp]: "length (next_levels n vs) = n"
  by (induction n vs rule: next_levels.induct) simp_all

lemma next_levels_add:
  "next_levels (m + n) vs = next_levels m vs @ next_levels n (drop m vs)"
  by (induction m vs rule: next_levels.induct) simp_all

lemma sampled_0 [simp]: "sampled 0 w = []"
  by (simp add: sampled_def)

lemma bytes_of_bits_8:
  "length a = 8 \<Longrightarrow> bytes_of_bits (a @ bs) = byte_of_bits a # bytes_of_bits bs"
  by (subst bytes_of_bits.simps) (simp del: bytes_of_bits.simps)

lemma bytes_of_bits_Nil [simp]: "bytes_of_bits [] = []"
  by (subst bytes_of_bits.simps) (simp del: bytes_of_bits.simps)

lemma burst_read_loop_crit:
  "burst_read_loop w dev dst i len = (e, dst', w') \<Longrightarrow>
     crit w' = (if e = ESP_OK then crit w else crit w - 1)"
proof (induction w dev dst i len arbitrary: e dst' w' rule: burst_read_loop.induct)
  case (1 w dev dst i len)
  note eq = burst_read_loop.simps [of w dev dst i len]
  show ?case
  proof (cases "i < len")
    case False
    with "1.prems" eq show ?thesis by simp
  next
    case True
    obtain e1 b1 w1 where s1: "read_byte w dev = (e1, b1, w1)" by (metis prod_cases3)
    note f1 = read_byte_props [OF s1]
    show ?thesis
    proof (cases "e1 = ESP_OK")
      case ok: True
      then have nok: "\<not> e1 \<noteq> ESP_OK" by simp
      from True s1 ok "1.prems" eq
      have r: "burst_read_loop w1 dev (dst[i := b1]) (Suc i) len = (e, dst', w')"
        by simp
      from "1.IH" [OF True s1 [symmetric] refl nok r] f1 show ?thesis by simp
    next
      case False
      with True s1 "1.prems" eq f1 show ?thesis by auto
    qed
  qed
qed

lemma burst_read_loop_ok:
  "burst_read_loop w dev dst i len = (ESP_OK, dst', w') \<Longrightarrow> i \<le> len \<Longrightarrow> len \<le> length dst \<Longrightarrow>
     dst' = take i dst @ bytes_of_bits (sampled (8 * (len - i)) w) @ drop len dst \<and>
     io_levels w' = drop (8 * (len - i)) (io_levels w)"
proof (induction w dev dst i len arbitrary: dst' w' rule: burst_read_loop.induct)
  case (1 w dev dst i len)
  note eq = burst_read_loop.simps [of w dev dst i len]
  show ?case
  proof (cases "i < len")
    case False
    with "1.prems" eq show ?thesis by simp
  next
    case True
    obtain e1 b1 w1 where s1: "read_byte w dev = (e1, b1, w1)" by (metis prod_cases3)
    note f1 = read_byte_props [OF s1]
    from True s1 "1.prems"(1) eq have ok: "e1 = ESP_OK"
      by (auto split: if_splits)
    then have nok: "\<not> e1 \<noteq> ESP_OK" by simp
    from True s1 ok "1.prems" eq
    have r: "burst_read_loop w1 dev (dst[i := b1]) (Suc i) len = (ESP_OK, dst', w')"
      by simp
    from True "1.prems" have b: "Suc i \<le> len" "len \<le> length (dst[i := b1])" by simp_all
    note ih = "1.IH" [OF True s1 [symmetric] refl nok r b]
    from True have n: "8 * (len - i) = 8 + 8 * (len - Suc i)" by simp
    from True have n2: "8 * (len - Suc i) + 8 = 8 * (len - i)" by simp
    from f1 ok have l1: "io_levels w1 = drop 8 (io_levels w)" and b1: "b1 = byte_of_bits (sampled 8 w)"
      by simp_all
    have "sampled (8 + 8 * (len - Suc i)) w = sampled 8 w @ sampled (8 * (len - Suc i)) w1"
      unfolding sampled_def l1 by (rule next_levels_add)
    then have sp: "bytes_of_bits (sampled (8 * (len - i)) w)
              = b1 # bytes_of_bits (sampled (8 * (len - Suc i)) w1)"
      unfolding n b1 by (simp only: bytes_of_bits_8 sampled_def length_next_levels)
    from True "1.prems" have tk: "take (Suc i) (dst[i := b1]) = take i dst @ [b1]"
      by (simp add: take_Suc_conv_app_nth)
    from True have dr: "drop len (dst[i := b1]) = drop len dst" by simp
    from ih have "dst' = take i dst @ bytes_of_bits (sampled (8 * (len - i)) w) @ drop len dst"
      by (simp only: sp tk dr append.simps append_assoc)
    moreover from ih have "io_levels w' = drop (8 * (len - i)) (io_levels w)"
      by (simp only: l1 drop_drop n2)
    ultimately show ?thesis by blast
  qed
qed

lemma burst_read_props:
  assumes "burst_read w dev reg dst len = (e, dst', w')"
  shows "crit w' = crit w" 
    and "e = ESP_OK \<Longrightarrow> unat len \<le> length dst \<Longrightarrow>
           dst' = bytes_of_bits (sampled (8 * unat len) w) @ drop (unat len) dst"
proof -
  obtain e1 w1 where s1: "prepare (PORT_ENTER_CRITICAL w) dev GPIO_MODE_OUTPUT = (e1, w1)" by force
  obtain e2 w2 where s2: "write_byte w1 dev (reg OR 1) = (e2, w2)" by force
  obtain e3 w3 where s3: "prepare w2 dev GPIO_MODE_INPUT = (e3, w3)" by force
  obtain e4 b4 w4 where s4: "burst_read_loop w3 dev dst 0 (unat len) = (e4, b4, w4)" by (metis prod_cases3)
  obtain e5 w5 where s5: "chip_disable (PORT_EXIT_CRITICAL w4) dev = (e5, w5)" by force
  note f1 = prepare_frame [OF s1] and f2 = write_byte_props [OF s2] and f3 = prepare_frame [OF s3]
    and f4 = burst_read_loop_crit [OF s4] and f5 = chip_disable_props [OF s5]
  have sm: "sampled n w3 = sampled n w" for n
    using f1 f2 f3 by (simp add: sampled_def)
  from assms s1 s2 s3 s4 s5 f1 f2 f3 f4 f5 show "crit w' = crit w"
    by (auto simp: burst_read_def split: if_splits)
  assume ok: "e = ESP_OK" and len: "unat len \<le> length dst"
  from ok assms s1 s2 s3 s4 s5 have oks: "e1 = ESP_OK" "e2 = ESP_OK" "e3 = ESP_OK" "e4 = ESP_OK" "e5 = ESP_OK"
    and res: "dst' = b4" "w' = w5"
    by (auto simp: burst_read_def split: if_splits)
  from s4 oks have "burst_read_loop w3 dev dst 0 (unat len) = (ESP_OK, b4, w4)" by simp
  from burst_read_loop_ok [OF this _ len] res sm
  show "dst' = bytes_of_bits (sampled (8 * unat len) w) @ drop (unat len) dst"
    by simp
qed

lemma wire_prepare:
  "pins_distinct dev \<Longrightarrow>
     fold (wire_step dev) (prepare_events dev m) (l, d, out) = (l, m, out)"
  by (auto simp: pins_distinct_def prepare_events_def wire_step_def)

lemma wire_clock:
  "fold (wire_step dev) (clock_events dev) (l, d, out) =
     (l, d, if d = GPIO_MODE_OUTPUT then out @ [l] else out)"
  by (simp add: clock_events_def wire_step_def)

lemma wire_write:
  "pins_distinct dev \<Longrightarrow>
     fold (wire_step dev) (write_events dev bs) (l, GPIO_MODE_OUTPUT, out) =
       (last (l # bs), GPIO_MODE_OUTPUT, out @ bs)"
proof (induction bs arbitrary: l out)
  case Nil
  then show ?case by (simp add: write_events_def)
next
  case (Cons b bs)
  have "write_events dev (b # bs) = [SetLevel (io_pin dev) b] @ clock_events dev @ write_events dev bs"
    by (simp add: write_events_def)
  moreover from Cons.prems
  have "wire_step dev (SetLevel (io_pin dev) b) (l, GPIO_MODE_OUTPUT, out) = (b, GPIO_MODE_OUTPUT, out)"
    by (auto simp: wire_step_def pins_distinct_def)
  ultimately show ?case
    using Cons.IH [OF Cons.prems, of b "out @ [b]"] by (simp add: wire_clock)
qed

lemma wire_read:
  "fold (wire_step dev) (read_events dev bs) (l, GPIO_MODE_INPUT, out) = (l, GPIO_MODE_INPUT, out)"
proof (induction bs)
  case Nil
  then show ?case by (simp add: read_events_def)
next
  case (Cons b bs)
  have "read_events dev (b # bs) = [GetLevel (io_pin dev) b] @ clock_events dev @ read_events dev bs"
    by (simp add: read_events_def)
  moreover have "wire_step dev (GetLevel (io_pin dev) b) (l, GPIO_MODE_INPUT, out) = (l, GPIO_MODE_INPUT, out)"
    by (simp add: wire_step_def)
  ultimately show ?case
    using Cons.IH by (simp add: wire_clock)
qed

lemma wire_misc [simp]:
  "wire_step dev EnterCritical s = s"
  "wire_step dev ExitCritical s = s"
  by (simp_all add: wire_step_def split: prod.splits)

lemma wire_ce:
  "pins_distinct dev \<Longrightarrow> wire_step dev (SetLevel (ce_pin dev) v) s = s"
  by (auto simp: wire_step_def pins_distinct_def split: prod.splits)

lemma wire_read_register:
  "pins_distinct dev \<Longrightarrow>
     fold (wire_step dev) (read_register_events dev reg bs) (l, d, out) =
       (bit reg 7, GPIO_MODE_INPUT, out @ bits_of_byte (reg OR 1))"
  by (simp add: read_register_events_def wire_prepare wire_write wire_read wire_ce
                bits_of_byte_def bit_or_iff upt_rec [of 0] last_map)

lemma wire_write_register:
  "pins_distinct dev \<Longrightarrow>
     snd (fold (wire_step dev) (write_register_events dev reg val) (l, d, out)) =
       (GPIO_MODE_OUTPUT, out @ bits_of_byte reg @ bits_of_byte val)"
  by (simp add: write_register_events_def wire_prepare wire_write wire_ce)

lemma wire_write_bytes:
  "pins_distinct dev \<Longrightarrow>
     snd (fold (wire_step dev) (concat (map (\<lambda>b. write_events dev (bits_of_byte b)) bytes))
            (l, GPIO_MODE_OUTPUT, out)) =
       (GPIO_MODE_OUTPUT, out @ concat (map bits_of_byte bytes))"
proof (induction bytes arbitrary: l out)
  case Nil
  then show ?case by simp
next
  case (Cons b bytes)
  from Cons.IH [OF Cons.prems] Cons.prems show ?case
    by (simp add: wire_write)
qed

lemma wire_burst_write:
  assumes "pins_distinct dev"
  shows "snd (fold (wire_step dev) (burst_write_events dev reg bytes) (l, d, out)) =
           (GPIO_MODE_OUTPUT, out @ bits_of_byte reg @ concat (map bits_of_byte bytes))"
proof -
  let ?s1 = "fold (wire_step dev) (concat (map (\<lambda>b. write_events dev (bits_of_byte b)) bytes))
               (last (l # bits_of_byte reg), GPIO_MODE_OUTPUT, out @ bits_of_byte reg)"
  have "?s1 = (fst ?s1, snd ?s1)" by simp
  also have "snd ?s1 = (GPIO_MODE_OUTPUT, (out @ bits_of_byte reg) @ concat (map bits_of_byte bytes))"
    using assms by (rule wire_write_bytes)
  finally have s1: "?s1 = (fst ?s1, GPIO_MODE_OUTPUT, out @ bits_of_byte reg @ concat (map bits_of_byte bytes))"
    by simp
  show ?thesis
    using assms
    by (simp add: burst_write_events_def wire_prepare wire_write del: last.simps)
       (subst s1, simp add: wire_ce)
qed

lemma new_events_append: "trace w' = trace w @ evs \<Longrightarrow> new_events w w' = evs"
  by (simp add: new_events_def)

lemma map_nth_take: "n \<le> length xs \<Longrightarrow> map ((!) xs) [0..<n] = take n xs"
  by (simp add: list_eq_iff_nth_eq)

lemma length_bits_of_byte [simp]: "length (bits_of_byte x) = 8"
  by (simp add: bits_of_byte_def)

lemma byte_of_bits_of_byte [simp]: "byte_of_bits (bits_of_byte x) = x"
  unfolding byte_of_bits_def bits_of_byte_def
  by (simp only: horner_sum_bit_eq_take_bit) (simp add: take_bit_word_eq_self)

lemma bytes_of_bits_bytes [simp]: "bytes_of_bits (concat (map bits_of_byte xs)) = xs"
  by (induction xs) (simp_all add: bytes_of_bits_8)

lemma bytes_of_bits_Cons [simp]:
  "bytes_of_bits (bits_of_byte x @ bs) = x # bytes_of_bits bs"
  by (simp add: bytes_of_bits_8)

lemma bytes_of_bits_single [simp]: "bytes_of_bits (bits_of_byte x) = [x]"
  using bytes_of_bits_Cons [of x "[]"] by (simp del: bytes_of_bits_Cons)

lemma burst_write_tx:
  assumes "pins_distinct dev" and "burst_write w dev reg src len = (ESP_OK, w')"
    and "unat len \<le> length src"
  shows "tx_bytes dev (new_events w w') = reg # take (unat len) src"
proof -
  from burst_write_props(3) [OF assms(2) refl] assms(3)
  have "new_events w w' = burst_write_events dev reg (take (unat len) src)"
    by (simp add: new_events_append map_nth_take)
  with assms(1) show ?thesis
    by (simp add: tx_bytes_def tx_bits_def wire_burst_write)
qed



lemma le_word_in_upt:
  fixes d :: u8
  assumes "unat d < n"
  shows "d \<in> set (map word_of_nat [0..<n])"
proof -
  from assms have "unat d \<in> set [0..<n]" by simp
  then have "word_of_nat (unat d) \<in> set (map (word_of_nat :: nat \<Rightarrow> u8) [0..<n])"
    by (simp only: set_map) (rule imageI)
  then show ?thesis by simp
qed







text \<open>
  Claim C7. For every decimal value \<open>d\<close> from 0 to 99, decoding the BCD encoding of \<open>d\<close>
  gives back \<open>d\<close>: \<open>bcd2dec (dec2bcd d) = d\<close>.
\<close>

theorem bcd_decode_encode:
  assumes "d \<le> 99"
  shows "bcd2dec (dec2bcd d) = d"
proof -
  from assms have "unat d < 100" by (simp add: word_le_nat_alt)
  then have "d \<in> set (map word_of_nat [0..<100])" by (rule le_word_in_upt)
  moreover have "\<forall>x \<in> set (map word_of_nat [0..<100]). bcd2dec (dec2bcd x) = (x :: u8)"
    by code_simp
  ultimately show ?thesis by blast
qed

text \<open>The round trip at \<open>d = 59\<close>.\<close>

theorem bcd_decode_encode_witness: "(59 :: u8) \<le> 99 \<and> bcd2dec (dec2bcd 59) = 59"
  using bcd_decode_encode [of 59] by simp

lemma hour_all_raw:
  "\<forall>h \<in> set (map word_of_nat [0..<256]).
     (if (h :: u8) AND HOUR12_BIT \<noteq> 0
      then (let x = uint (bcd2dec (h AND HOUR12_MASK)) - 1
            in if h AND PM_BIT \<noteq> 0 then x + 12 else x)
      else uint (bcd2dec (h AND HOUR24_MASK))) = hour_of_raw h"
  by code_simp

text \<open>
  Claim C3, as amended. The hour that \<open>ds1302_get_time\<close> stores is \<open>hour_of_raw\<close> of the
  third byte read: with the top bit of the raw byte set, the lower 5 bits decoded as BCD,
  minus 1, plus 12 if bit 5 (the PM bit) is set; otherwise the lower 6 bits decoded as
  24-hour BCD. Raw byte 0x92 has the 12-hour bit set and the PM bit clear and decodes to
  hour 11; 0xb2, the same with the PM bit set, decodes to 23; 0x12 decodes as 24-hour BCD
  to hour 12.
\<close>

theorem get_time_hour_decode:
  "tm_hour (get_time_fields buf t) = hour_of_raw (buf ! 2) \<and>
   hour_of_raw 0x92 = 11 \<and> hour_of_raw 0xb2 = 23 \<and> hour_of_raw 0x12 = 12"
proof -
  have "unat (buf ! 2) < 256" using unsigned_less [of "buf ! 2"] by simp
  from le_word_in_upt [OF this] hour_all_raw
  have "(if buf ! 2 AND HOUR12_BIT \<noteq> 0
      then (let x = uint (bcd2dec (buf ! 2 AND HOUR12_MASK)) - 1
            in if buf ! 2 AND PM_BIT \<noteq> 0 then x + 12 else x)
      else uint (bcd2dec (buf ! 2 AND HOUR24_MASK))) = hour_of_raw (buf ! 2)"
    by blast
  then have "tm_hour (get_time_fields buf t) = hour_of_raw (buf ! 2)"
    by (simp add: get_time_fields_def)
  moreover have "hour_of_raw 0x92 = 11" "hour_of_raw 0xb2 = 23" "hour_of_raw 0x12 = 12"
    by (simp_all add: hour_of_raw_def bcd_value_def)
  ultimately show ?thesis by simp
qed

text \<open>
  The two examples of claim C3 as it was stated fail: the hour decoded from the raw byte
  0x92 is 11, not 23, and the hour decoded from 0x12 is 12, not 18.
\<close>

theorem get_time_hour_examples_counterexample:
  "tm_hour (get_time_fields [0, 0, 0x92, 0, 0, 0, 0] zero_tm) = 11 \<and>
   tm_hour (get_time_fields [0, 0, 0x92, 0, 0, 0, 0] zero_tm) \<noteq> 23 \<and>
   tm_hour (get_time_fields [0, 0, 0x12, 0, 0, 0, 0] zero_tm) = 12 \<and>
   tm_hour (get_time_fields [0, 0, 0x12, 0, 0, 0, 0] zero_tm) \<noteq> 18"
  by code_simp

text \<open>
  Claim C6. Every public operation called with a null handle or a null buffer or out
  pointer, and the scratch-memory operations called with length zero or with
  \<open>offset + length\<close> above the capacity, return \<open>ESP_ERR_INVALID_ARG\<close> and hand back
  the world they were given, so no platform call was made and nothing was consumed; the
  pointees come back as they were. In particular \<open>ds1302_write_sram\<close> with
  \<open>offset = capacity - 1\<close> and \<open>length = 2\<close> fails so.
\<close>

theorem invalid_argument_no_effect:
  "ds1302_init w None = (ESP_ERR_INVALID_ARG, None, w) \<and>
   ds1302_start w None start = (ESP_ERR_INVALID_ARG, None, w) \<and>
   ds1302_is_running w None runningp = (ESP_ERR_INVALID_ARG, None, runningp, w) \<and>
   ds1302_is_running w devp None = (ESP_ERR_INVALID_ARG, devp, None, w) \<and>
   ds1302_set_write_protect w None wp = (ESP_ERR_INVALID_ARG, w) \<and>
   ds1302_get_write_protect w None wpp = (ESP_ERR_INVALID_ARG, wpp, w) \<and>
   ds1302_get_write_protect w devp None = (ESP_ERR_INVALID_ARG, None, w) \<and>
   ds1302_get_time w None timep = (ESP_ERR_INVALID_ARG, timep, w) \<and>
   ds1302_get_time w devp None = (ESP_ERR_INVALID_ARG, None, w) \<and>
   ds1302_set_time w None timep = (ESP_ERR_INVALID_ARG, w) \<and>
   ds1302_set_time w devp None = (ESP_ERR_INVALID_ARG, w) \<and>
   (devp = None \<or> bufp = None \<or> len = 0 \<or> ram_size < unat offset + unat len \<longrightarrow>
      ds1302_read_sram ram_size w devp offset bufp len = (ESP_ERR_INVALID_ARG, bufp, w) \<and>
      ds1302_write_sram ram_size w devp offset bufp len = (ESP_ERR_INVALID_ARG, w)) \<and>
   (0 < ram_size \<and> ram_size \<le> 256 \<longrightarrow>
      ds1302_write_sram ram_size w devp (word_of_nat (ram_size - 1)) bufp 2 = (ESP_ERR_INVALID_ARG, w))"
proof (intro conjI impI)
  show "ds1302_init w None = (ESP_ERR_INVALID_ARG, None, w)"
    by (simp add: ds1302_init_def)
  show "ds1302_start w None start = (ESP_ERR_INVALID_ARG, None, w)"
    by (simp add: ds1302_start_def)
  show "ds1302_is_running w None runningp = (ESP_ERR_INVALID_ARG, None, runningp, w)"
    by (simp add: ds1302_is_running_def)
  show "ds1302_is_running w devp None = (ESP_ERR_INVALID_ARG, devp, None, w)"
    by (simp add: ds1302_is_running_def split: option.splits)
  show "ds1302_set_write_protect w None wp = (ESP_ERR_INVALID_ARG, w)"
    by (simp add: ds1302_set_write_protect_def)
  show "ds1302_get_write_protect w None wpp = (ESP_ERR_INVALID_ARG, wpp, w)"
    by (simp add: ds1302_get_write_protect_def)
  show "ds1302_get_write_protect w devp None = (ESP_ERR_INVALID_ARG, None, w)"
    by (simp add: ds1302_get_write_protect_def split: option.splits)
  show "ds1302_get_time w None timep = (ESP_ERR_INVALID_ARG, timep, w)"
    by (simp add: ds1302_get_time_def)
  show "ds1302_get_time w devp None = (ESP_ERR_INVALID_ARG, None, w)"
    by (simp add: ds1302_get_time_def split: option.splits)
  show "ds1302_set_time w None timep = (ESP_ERR_INVALID_ARG, w)"
    by (simp add: ds1302_set_time_def)
  show "ds1302_set_time w devp None = (ESP_ERR_INVALID_ARG, w)"
    by (simp add: ds1302_set_time_def split: option.splits)
next
  assume bad: "devp = None \<or> bufp = None \<or> len = 0 \<or> ram_size < unat offset + unat len"
  then show "ds1302_read_sram ram_size w devp offset bufp len = (ESP_ERR_INVALID_ARG, bufp, w)"
    by (auto simp: ds1302_read_sram_def split: option.splits)
  from bad show "ds1302_write_sram ram_size w devp offset bufp len = (ESP_ERR_INVALID_ARG, w)"
    by (auto simp: ds1302_write_sram_def split: option.splits)
next
  assume "0 < ram_size \<and> ram_size \<le> 256"
  then have that: "0 < ram_size" "ram_size \<le> 256" by simp_all
  show "ds1302_write_sram ram_size w devp (word_of_nat (ram_size - 1)) bufp 2 = (ESP_ERR_INVALID_ARG, w)"
  proof -
    from that have "unat (word_of_nat (ram_size - 1) :: u8) = ram_size - 1"
      by (simp only: unat_of_nat) simp
    with that have "ram_size < unat (word_of_nat (ram_size - 1) :: u8) + unat (2 :: u8)"
      by simp
    then show ?thesis
      by (auto simp: ds1302_write_sram_def split: option.splits)
  qed
qed

text \<open>
  On a chip of capacity 31: \<open>ds1302_write_sram\<close> at offset 30 with length 2, on a valid
  handle and buffer, and \<open>ds1302_read_sram\<close> with length 0.
\<close>

theorem invalid_argument_no_effect_witness:
  "ds1302_write_sram 31 idle_world (Some example_dev) 30 (Some [1, 2]) 2 = (ESP_ERR_INVALID_ARG, idle_world) \<and>
   ds1302_read_sram 31 idle_world (Some example_dev) 0 (Some [1, 2]) 0
     = (ESP_ERR_INVALID_ARG, Some [1, 2], idle_world)"
  using invalid_argument_no_effect [of idle_world _ _ "Some example_dev" _ _ _ "Some [1, 2]" 2 31 30]
    invalid_argument_no_effect [of idle_world _ _ "Some example_dev" _ _ _ "Some [1, 2]" 0 31 0]
  by simp

text \<open>
  Claim C9. The scratch-memory operations use \<open>offset\<close> in the bounds check only: for two
  offsets that both pass the check, the operation is the same function of its other
  arguments (same result, same platform calls, same bytes), namely the burst transaction
  on \<open>RAM_BURST\<close> over the first \<open>len\<close> bytes of the buffer. A write that succeeds clocks
  out the command byte \<open>RAM_BURST\<close> followed by those bytes, whatever the offset.
\<close>

theorem sram_offset_only_in_bounds_check:
  assumes "unat o1 + unat len \<le> ram_size" and "unat o2 + unat len \<le> ram_size"
  shows "ds1302_read_sram ram_size w devp o1 bufp len = ds1302_read_sram ram_size w devp o2 bufp len \<and>
         ds1302_write_sram ram_size w devp o1 bufp len = ds1302_write_sram ram_size w devp o2 bufp len \<and>
         (len \<noteq> 0 \<longrightarrow>
            ds1302_read_sram ram_size w (Some dev) o1 (Some buf) len =
              (case burst_read w dev RAM_BURST buf len of (e, buf', w') \<Rightarrow> (e, Some buf', w')) \<and>
            ds1302_write_sram ram_size w (Some dev) o1 (Some buf) len = burst_write w dev RAM_BURST buf len) \<and>
         (pins_distinct dev \<and> unat len \<le> length buf \<and>
          ds1302_write_sram ram_size w (Some dev) o1 (Some buf) len = (ESP_OK, w') \<longrightarrow>
            tx_bytes dev (new_events w w') = RAM_BURST # take (unat len) buf)"
proof (intro conjI impI)
  from assms
  show "ds1302_read_sram ram_size w devp o1 bufp len = ds1302_read_sram ram_size w devp o2 bufp len"
    by (simp add: ds1302_read_sram_def split: option.splits)
  from assms
  show "ds1302_write_sram ram_size w devp o1 bufp len = ds1302_write_sram ram_size w devp o2 bufp len"
    by (simp add: ds1302_write_sram_def split: option.splits)
next
  assume "len \<noteq> 0"
  with assms show "ds1302_read_sram ram_size w (Some dev) o1 (Some buf) len =
      (case burst_read w dev RAM_BURST buf len of (e, buf', w') \<Rightarrow> (e, Some buf', w'))"
    by (simp add: ds1302_read_sram_def)
  from \<open>len \<noteq> 0\<close> assms
  show "ds1302_write_sram ram_size w (Some dev) o1 (Some buf) len = burst_write w dev RAM_BURST buf len"
    by (simp add: ds1302_write_sram_def)
next
  assume "pins_distinct dev \<and> unat len \<le> length buf \<and>
          ds1302_write_sram ram_size w (Some dev) o1 (Some buf) len = (ESP_OK, w')"
  then have pd: "pins_distinct dev" and ln: "unat len \<le> length buf"
    and ok: "ds1302_write_sram ram_size w (Some dev) o1 (Some buf) len = (ESP_OK, w')"
    by simp_all
  from ok have "len \<noteq> 0"
    by (auto simp: ds1302_write_sram_def split: if_splits)
  with ok assms have "burst_write w dev RAM_BURST buf len = (ESP_OK, w')"
    by (simp add: ds1302_write_sram_def)
  from burst_write_tx [OF pd this ln]
  show "tx_bytes dev (new_events w w') = RAM_BURST # take (unat len) buf" .
qed

text \<open>
  Writing three bytes on a chip of capacity 31, at offset 0 and at offset 5: the same
  result, and the wire carries \<open>0xfe, 0x11, 0x22, 0x33\<close>.
\<close>

theorem sram_offset_only_in_bounds_check_witness:
  "unat (0 :: u8) + unat (3 :: u8) \<le> 31 \<and> unat (5 :: u8) + unat (3 :: u8) \<le> 31 \<and>
   ds1302_write_sram 31 idle_world (Some example_dev) 5 (Some [0x11, 0x22, 0x33]) 3 =
     ds1302_write_sram 31 idle_world (Some example_dev) 0 (Some [0x11, 0x22, 0x33]) 3 \<and>
   fst (ds1302_write_sram 31 idle_world (Some example_dev) 5 (Some [0x11, 0x22, 0x33]) 3) = ESP_OK \<and>
   tx_bytes example_dev (new_events idle_world
       (snd (ds1302_write_sram 31 idle_world (Some example_dev) 5 (Some [0x11, 0x22, 0x33]) 3))) =
     [0xfe, 0x11, 0x22, 0x33]"
proof -
  let ?r = "ds1302_write_sram 31 idle_world (Some example_dev) 5 (Some [0x11, 0x22, 0x33]) 3"
  have b: "unat (5 :: u8) + unat (3 :: u8) \<le> 31" "unat (0 :: u8) + unat (3 :: u8) \<le> 31"
    by simp_all
  have "fst ?r = ESP_OK" by code_simp
  then have ok: "?r = (ESP_OK, snd ?r)" by (metis prod.collapse)
  have pd: "pins_distinct example_dev" by code_simp
  have ln: "unat (3 :: u8) \<le> length [0x11, 0x22, 0x33 :: u8]" by simp
  have fst_ok: "fst ?r = ESP_OK" by code_simp
  note T = sram_offset_only_in_bounds_check [OF b, of idle_world "Some example_dev"
      "Some [0x11, 0x22, 0x33]" example_dev "[0x11, 0x22, 0x33]" "snd ?r"]
  from T have e1: "?r = ds1302_write_sram 31 idle_world (Some example_dev) 0 (Some [0x11, 0x22, 0x33]) 3"
    by blast
  from T pd ln ok have "tx_bytes example_dev (new_events idle_world (snd ?r)) =
      RAM_BURST # take (unat (3 :: u8)) [0x11, 0x22, 0x33]"
    by blast
  then have tx: "tx_bytes example_dev (new_events idle_world (snd ?r)) = [0xfe, 0x11, 0x22, 0x33]"
    by (simp add: RAM_BURST_def)
  from b e1 fst_ok tx show ?thesis by blast
qed

lemma update_register_ok:
  assumes "update_register w dev reg msk val = (ESP_OK, w')"
  shows "trace w' = trace w @ read_register_events dev reg (sampled 8 w) @
           write_register_events dev reg ((byte_of_bits (sampled 8 w) AND msk) OR val)"
    and "crit w' = crit w + 2"
proof -
  obtain e1 r w1 where s1: "read_register w dev reg 0 = (e1, r, w1)" by (metis prod_cases3)
  with assms have ok1: "e1 = ESP_OK"
    and s2: "write_register w1 dev reg ((r AND msk) OR val) = (ESP_OK, w')"
    by (auto simp: update_register_def split: if_splits)
  note f1 = read_register_props [OF s1] and f2 = write_register_props [OF s2]
  from f1(2,4) [OF ok1] f2(4) [OF refl]
  show "trace w' = trace w @ read_register_events dev reg (sampled 8 w) @
           write_register_events dev reg ((byte_of_bits (sampled 8 w) AND msk) OR val)"
    by simp
  from f1(1) f2(3) [OF refl] show "crit w' = crit w + 2" by simp
qed

lemma wire_read_then_write:
  assumes "pins_distinct dev"
  shows "tx_bytes dev (read_register_events dev reg bs @ write_register_events dev reg' val) =
           [reg OR 1, reg', val]"
  using assms
  by (simp add: tx_bytes_def tx_bits_def wire_read_register wire_write_register)

lemma tx_read_register:
  "pins_distinct dev \<Longrightarrow> tx_bytes dev (read_register_events dev reg bs) = [reg OR 1]"
  by (simp add: tx_bytes_def tx_bits_def wire_read_register)

lemma tx_write_register:
  "pins_distinct dev \<Longrightarrow> tx_bytes dev (write_register_events dev reg val) = [reg, val]"
  by (simp add: tx_bytes_def tx_bits_def wire_write_register)

lemma critical_calls_prepare: "critical_calls (prepare_events dev m) = []"
  by (simp add: critical_calls_def prepare_events_def)

lemma critical_calls_write: "critical_calls (write_events dev bs) = []"
  by (induction bs) (simp_all add: critical_calls_def write_events_def clock_events_def)

text \<open>
  The critical region around the register and burst operations. \<open>read_register\<close>,
  \<open>burst_read\<close> and \<open>burst_write\<close> return with the nesting depth they were called with,
  on every path; so does \<open>write_register\<close> when one of its \<open>CHECK_MUX\<close> steps fails.
\<close>

lemma critical_region_balanced:
  "crit (snd (snd (read_register w dev reg val))) = crit w"
  "crit (snd (snd (burst_read w dev reg dst len))) = crit w"
  "crit (snd (burst_write w dev reg src len)) = crit w"
proof -
  show "crit (snd (snd (read_register w dev reg val))) = crit w"
    using read_register_props(1) [of w dev reg val] by (metis prod.collapse)
  show "crit (snd (snd (burst_read w dev reg dst len))) = crit w"
    using burst_read_props(1) [of w dev reg dst len] by (metis prod.collapse)
  show "crit (snd (burst_write w dev reg src len)) = crit w"
    using burst_write_props(2) [of w dev reg src len] by (metis prod.collapse)
qed

text \<open>
  Claim C1 does not hold of \<open>write_register\<close>: when the transaction succeeds the function
  has entered the critical region twice and never left it, so it returns with the
  nesting depth two higher than at the call.
\<close>

theorem write_register_returns_inside_region:
  assumes "write_register w dev reg val = (ESP_OK, w')"
  shows "crit w' = crit w + 2 \<and>
         critical_calls (new_events w w') = [EnterCritical, EnterCritical]"
proof -
  from assms have "crit w' = crit w + 2"
    by (rule write_register_props(3)) simp
  moreover from write_register_props(4) [OF assms refl]
  have "new_events w w' = write_register_events dev reg val"
    by (rule new_events_append)
  then have "critical_calls (new_events w w') = [EnterCritical, EnterCritical]"
    by (simp add: write_register_events_def critical_calls_def critical_calls_prepare
                  critical_calls_write [unfolded critical_calls_def]
                  critical_calls_prepare [unfolded critical_calls_def])
  ultimately show ?thesis by blast
qed

text \<open>
  Writing 0 to the seconds register on a platform where every GPIO call succeeds: the
  call returns \<open>ESP_OK\<close> at nesting depth 2, having logged two enters and no exit.
\<close>

theorem write_register_returns_inside_region_witness:
  "fst (write_register idle_world example_dev 0x80 0) = ESP_OK \<and>
   crit idle_world = 0 \<and>
   crit (snd (write_register idle_world example_dev 0x80 0)) = 2 \<and>
   critical_calls (new_events idle_world (snd (write_register idle_world example_dev 0x80 0)))
     = [EnterCritical, EnterCritical]"
proof -
  let ?r = "write_register idle_world example_dev 0x80 0"
  have "fst ?r = ESP_OK" by code_simp
  then have ok: "?r = (ESP_OK, snd ?r)" by (metis prod.collapse)
  have c0: "crit idle_world = 0" by code_simp
  from write_register_returns_inside_region [OF ok] c0
  have "crit (snd ?r) = 2"
    and "critical_calls (new_events idle_world (snd ?r)) = [EnterCritical, EnterCritical]"
    by simp_all
  moreover from ok have "fst ?r = ESP_OK" by (metis fst_conv)
  ultimately show ?thesis using c0 by blast
qed

text \<open>
  Claim C4, as amended. The low bit of the command byte selects read or write:
  \<open>read_register\<close> clocks out \<open>addr OR 1\<close> in its address phase and nothing else,
  \<open>write_register\<close> clocks out \<open>addr\<close> followed by the data byte. The two command bytes
  agree in every bit but bit 0, and differ there exactly when bit 0 of \<open>addr\<close> is clear,
  as it is in every address the driver uses.
\<close>

theorem command_byte_low_bit_selects_read:
  assumes "pins_distinct dev"
    and "read_register w dev addr v0 = (ESP_OK, v, w1)"
    and "write_register w dev addr val = (ESP_OK, w2)"
  shows "tx_bytes dev (new_events w w1) = [addr OR 1] \<and>
         tx_bytes dev (new_events w w2) = [addr, val] \<and>
         (addr OR 1) XOR addr = (if bit addr 0 then 0 else 1) \<and>
         \<not> bit CH_REG 0 \<and> \<not> bit WP_REG 0 \<and> \<not> bit CLOCK_BURST 0 \<and> \<not> bit RAM_BURST 0"
proof -
  from read_register_props(4) [OF assms(2) refl] assms(1)
  have "tx_bytes dev (new_events w w1) = [addr OR 1]"
    by (simp add: new_events_append tx_read_register)
  moreover from write_register_props(4) [OF assms(3) refl] assms(1)
  have "tx_bytes dev (new_events w w2) = [addr, val]"
    by (simp add: new_events_append tx_write_register)
  moreover have "(addr OR 1) XOR addr = (if bit addr 0 then 0 else 1)"
    by (rule bit_eqI) (auto simp: bit_simps bit_0 bit_1_iff)
  moreover have "\<not> bit CH_REG 0" "\<not> bit WP_REG 0" "\<not> bit CLOCK_BURST 0" "\<not> bit RAM_BURST 0"
    by (simp_all add: CH_REG_def WP_REG_def CLOCK_BURST_def RAM_BURST_def bit_0)
  ultimately show ?thesis by blast
qed

text \<open>Reading and writing the seconds register 0x80: the command bytes are 0x81 and 0x80.\<close>

theorem command_byte_low_bit_selects_read_witness:
  "pins_distinct example_dev \<and>
   fst (read_register idle_world example_dev 0x80 0) = ESP_OK \<and>
   fst (write_register idle_world example_dev 0x80 0x55) = ESP_OK \<and>
   tx_bytes example_dev (new_events idle_world (snd (snd (read_register idle_world example_dev 0x80 0)))) = [0x81] \<and>
   tx_bytes example_dev (new_events idle_world (snd (write_register idle_world example_dev 0x80 0x55))) = [0x80, 0x55]"
proof -
  let ?r = "read_register idle_world example_dev 0x80 0"
  let ?w = "write_register idle_world example_dev 0x80 0x55"
  have pd: "pins_distinct example_dev" by code_simp
  have "fst ?r = ESP_OK" by code_simp
  then have r: "?r = (ESP_OK, fst (snd ?r), snd (snd ?r))" by (metis prod.collapse)
  have "fst ?w = ESP_OK" by code_simp
  then have w: "?w = (ESP_OK, snd ?w)" by (metis prod.collapse)
  from command_byte_low_bit_selects_read [OF pd r w]
  have "tx_bytes example_dev (new_events idle_world (snd (snd ?r))) = [0x81]"
    "tx_bytes example_dev (new_events idle_world (snd ?w)) = [0x80, 0x55]"
    by simp_all
  moreover from r w have "fst ?r = ESP_OK" "fst ?w = ESP_OK" by (metis fst_conv)+
  ultimately show ?thesis using pd by blast
qed

text \<open>
  Claim C4 as it was stated fails at the seconds register: the command bytes of
  \<open>read_register\<close> and \<open>write_register\<close> for address 0x80 are 0x81 and 0x80. They have the
  same most significant bit and differ in the least significant one.
\<close>

theorem command_byte_high_bit_counterexample:
  "hd (tx_bytes example_dev (new_events idle_world (snd (snd (read_register idle_world example_dev 0x80 0))))) = 0x81 \<and>
   hd (tx_bytes example_dev (new_events idle_world (snd (write_register idle_world example_dev 0x80 0x55)))) = 0x80 \<and>
   bit (0x81 :: u8) 7 = bit (0x80 :: u8) 7 \<and>
   bit (0x81 :: u8) 0 \<noteq> bit (0x80 :: u8) 0"
  by code_simp

lemma test_top_bit:
  "(r AND CH_BIT \<noteq> 0) = bit (r :: u8) 7"
  "(r AND WP_BIT \<noteq> 0) = bit r 7"
  unfolding CH_BIT_def WP_BIT_def
  by (simp_all only: push_bit_of_1 and_exp_eq_0_iff_not_bit) simp_all

text \<open>
  Claim C5, as amended. \<open>update_register\<close> reads the register (command byte
  \<open>addr OR 1\<close>), and when the read succeeded writes back \<open>(current AND mask) OR value\<close>
  (command byte \<open>addr\<close>, then that byte). Bit \<open>i\<close> of the byte written is set when bit
  \<open>i\<close> of \<open>value\<close> is set, or when bit \<open>i\<close> is set both in the mask and in the current
  byte: the update preserves the bits that are set in the mask and clear in \<open>value\<close>.
\<close>

theorem update_register_read_modify_write:
  assumes "pins_distinct dev" and "update_register w dev addr msk val = (ESP_OK, w')"
  shows "(let cur = byte_of_bits (sampled 8 w); new = (cur AND msk) OR val in
           tx_bytes dev (new_events w w') = [addr OR 1, addr, new] \<and>
           (\<forall>i. bit new i = (bit val i \<or> (bit msk i \<and> bit cur i))) \<and>
           (\<forall>i. bit msk i \<and> \<not> bit val i \<longrightarrow> bit new i = bit cur i))"
proof -
  from update_register_ok(1) [OF assms(2)] assms(1)
  have "tx_bytes dev (new_events w w') =
          [addr OR 1, addr, (byte_of_bits (sampled 8 w) AND msk) OR val]"
    by (simp add: new_events_append wire_read_then_write)
  then show ?thesis
    by (auto simp: Let_def bit_or_iff bit_and_iff)
qed

text \<open>
  Stopping the clock the way \<open>ds1302_start\<close> does, on a chip whose seconds register reads
  0x05: the byte written is 0x85.
\<close>

theorem update_register_read_modify_write_witness:
  "pins_distinct example_dev \<and>
   fst (update_register (world_presenting [0x05]) example_dev 0x80 0x7f 0x80) = ESP_OK \<and>
   tx_bytes example_dev (new_events (world_presenting [0x05])
      (snd (update_register (world_presenting [0x05]) example_dev 0x80 0x7f 0x80))) = [0x81, 0x80, 0x85]"
proof -
  let ?u = "update_register (world_presenting [0x05]) example_dev 0x80 0x7f 0x80"
  have pd: "pins_distinct example_dev" by code_simp
  have "fst ?u = ESP_OK" by code_simp
  then have u: "?u = (ESP_OK, snd ?u)" by (metis prod.collapse)
  have c: "byte_of_bits (sampled 8 (world_presenting [0x05])) = 0x05" by code_simp
  from update_register_read_modify_write [OF pd u] c
  have "tx_bytes example_dev (new_events (world_presenting [0x05]) (snd ?u)) = [0x81, 0x80, 0x85]"
    by (simp add: Let_def)
  moreover from u have "fst ?u = ESP_OK" by (metis fst_conv)
  ultimately show ?thesis using pd by blast
qed

text \<open>
  Claim C5 as it was stated fails for mask 0x7f and value 0x81 on a register that reads
  0x00: the byte written back is 0x81. Bit 7, which the mask does not cover, and bit 0,
  which it covers, both differ from the register's.
\<close>

theorem update_register_preserves_counterexample:
  "byte_of_bits (sampled 8 (world_presenting [0x00])) = 0x00 \<and>
   tx_bytes example_dev (new_events (world_presenting [0x00])
      (snd (update_register (world_presenting [0x00]) example_dev 0x80 0x7f 0x81))) = [0x81, 0x80, 0x81] \<and>
   \<not> bit (0x7f :: u8) 7 \<and> bit (0x81 :: u8) 7 \<noteq> bit (0x00 :: u8) 7 \<and>
   bit (0x7f :: u8) 0 \<and> bit (0x81 :: u8) 0 \<noteq> bit (0x00 :: u8) 0"
  by code_simp







lemma set_time_ok:
  assumes "pins_distinct dev" and "ds1302_set_time w (Some dev) (Some t) = (ESP_OK, w')"
  shows "tx_bytes dev (new_events w w') = CLOCK_BURST # set_time_buf dev t"
    and "io_levels w' = io_levels w"
proof -
  from assms(2) have b: "burst_write w dev CLOCK_BURST (set_time_buf dev t) 8 = (ESP_OK, w')"
    by (simp add: ds1302_set_time_def)
  have l: "unat (8 :: u8) \<le> length (set_time_buf dev t)"
    by (simp add: set_time_buf_def)
  from burst_write_tx [OF assms(1) b l]
  show "tx_bytes dev (new_events w w') = CLOCK_BURST # set_time_buf dev t"
    by (simp add: set_time_buf_def)
  from burst_write_props(1) [OF b] show "io_levels w' = io_levels w" .
qed


lemma get_write_protect_ok:
  assumes "ds1302_get_write_protect w (Some dev) (Some wp0) = (ESP_OK, wpp, w')"
  shows "wpp = Some (bit (byte_of_bits (sampled 8 w)) 7)"
proof -
  obtain e1 r w1 where s1: "read_register w dev WP_REG 0 = (e1, r, w1)" by (metis prod_cases3)
  with assms have ok1: "e1 = ESP_OK" and res: "wpp = Some (r AND WP_BIT \<noteq> 0)"
    by (auto simp: ds1302_get_write_protect_def split: if_splits)
  from res read_register_props(2) [OF s1 ok1] show ?thesis
    by (simp add: test_top_bit)
qed

lemma sample_calls_write: "sample_calls (write_events dev bs) = []"
  by (induction bs) (simp_all add: sample_calls_def write_events_def clock_events_def)

lemma sample_calls_write_bytes:
  "sample_calls (concat (map (\<lambda>b. write_events dev (bits_of_byte b)) bytes)) = []"
proof (induction bytes)
  case Nil
  show ?case by (simp add: sample_calls_def)
next
  case (Cons b bytes)
  have "sample_calls (write_events dev (bits_of_byte b) @ concat (map (\<lambda>b. write_events dev (bits_of_byte b)) bytes))
        = sample_calls (write_events dev (bits_of_byte b)) @
          sample_calls (concat (map (\<lambda>b. write_events dev (bits_of_byte b)) bytes))"
    by (simp add: sample_calls_def)
  with Cons.IH show ?case by (simp add: sample_calls_write)
qed

lemma sample_calls_burst_write: "sample_calls (burst_write_events dev reg bytes) = []"
proof -
  have "sample_calls (burst_write_events dev reg bytes) =
          sample_calls (write_events dev (bits_of_byte reg)) @
          sample_calls (concat (map (\<lambda>b. write_events dev (bits_of_byte b)) bytes))"
    by (simp add: sample_calls_def burst_write_events_def prepare_events_def)
  then show ?thesis by (simp add: sample_calls_write sample_calls_write_bytes)
qed

lemma set_time_events:
  assumes "ds1302_set_time w (Some dev) (Some t) = (ESP_OK, w')"
  shows "new_events w w' = burst_write_events dev CLOCK_BURST (set_time_buf dev t)"
proof -
  from assms have b: "burst_write w dev CLOCK_BURST (set_time_buf dev t) 8 = (ESP_OK, w')"
    by (simp add: ds1302_set_time_def)
  have "map ((!) (set_time_buf dev t)) [0..<unat (8 :: u8)] = take (unat (8 :: u8)) (set_time_buf dev t)"
    by (rule map_nth_take) (simp add: set_time_buf_def)
  also have "\<dots> = set_time_buf dev t" by (simp add: set_time_buf_def)
  finally show ?thesis
    using burst_write_props(3) [OF b refl] by (simp add: new_events_append)
qed

text \<open>
  Claim C10, as amended. A successful \<open>ds1302_set_time\<close> clocks out the command byte
  \<open>CLOCK_BURST\<close> and then exactly the eight bytes of its buffer, the eighth of which is
  0 and so has the write-protect bit clear. In the chip's register map the clock
  registers are two addresses apart from \<open>CH_REG\<close> on, so the eighth is \<open>WP_REG\<close>: the call
  asks the chip to clear write protection. It does so blindly: it makes no
  \<open>gpio_get_level\<close> call, so it neither knows the flag before nor learns whether the
  chip took the write.
\<close>

theorem set_time_eighth_byte_zero:
  assumes "pins_distinct dev" and "ds1302_set_time w (Some dev) (Some t) = (ESP_OK, w')"
  shows "tx_bytes dev (new_events w w') = CLOCK_BURST # set_time_buf dev t \<and>
         length (tx_bytes dev (new_events w w')) = 1 + 8 \<and>
         tx_bytes dev (new_events w w') ! 8 = 0 \<and>
         tx_bytes dev (new_events w w') ! 8 AND WP_BIT = 0 \<and>
         WP_REG = CH_REG + 2 * 7 \<and>
         sample_calls (new_events w w') = [] \<and>
         io_levels w' = io_levels w"
proof -
  note tx = set_time_ok(1) [OF assms]
  have l: "length (set_time_buf dev t) = 8" and z: "set_time_buf dev t ! 7 = 0"
    by (simp_all add: set_time_buf_def)
  have "WP_REG = CH_REG + 2 * 7" by (simp add: WP_REG_def CH_REG_def)
  moreover from set_time_events [OF assms(2)] have "sample_calls (new_events w w') = []"
    by (simp add: sample_calls_burst_write)
  moreover note set_time_ok(2) [OF assms]
  ultimately show ?thesis using tx l z by simp
qed

text \<open>
  Setting the example time on an idle platform: nine bytes on the wire, the last one 0,
  and the data line is never sampled.
\<close>

theorem set_time_eighth_byte_zero_witness:
  "pins_distinct example_dev \<and>
   fst (ds1302_set_time idle_world (Some example_dev) (Some example_tm)) = ESP_OK \<and>
   tx_bytes example_dev (new_events idle_world
       (snd (ds1302_set_time idle_world (Some example_dev) (Some example_tm)))) =
     [0xbe, 0x56, 0x34, 0x12, 0x25, 0x12, 0x06, 0x26, 0x00] \<and>
   sample_calls (new_events idle_world
       (snd (ds1302_set_time idle_world (Some example_dev) (Some example_tm)))) = []"
proof -
  let ?s = "ds1302_set_time idle_world (Some example_dev) (Some example_tm)"
  have pd: "pins_distinct example_dev" by code_simp
  have "fst ?s = ESP_OK" by code_simp
  then have s: "?s = (ESP_OK, snd ?s)" by (metis prod.collapse)
  have b: "set_time_buf example_dev example_tm = [0x56, 0x34, 0x12, 0x25, 0x12, 0x06, 0x26, 0x00]"
    by code_simp
  note T = set_time_eighth_byte_zero [OF pd s]
  from T b have tx: "tx_bytes example_dev (new_events idle_world (snd ?s)) =
      [0xbe, 0x56, 0x34, 0x12, 0x25, 0x12, 0x06, 0x26, 0x00]"
    by (simp add: CLOCK_BURST_def)
  from T have sc: "sample_calls (new_events idle_world (snd ?s)) = []" by blast
  from s have "fst ?s = ESP_OK" by (metis fst_conv)
  with pd tx sc show ?thesis by blast
qed

text \<open>
  Claim C10 as it was stated fails on a chip that keeps its write-protect flag, as one
  that refuses writes while protected does. The chip presents 0x80 whenever its control
  register is read: \<open>ds1302_get_write_protect\<close> reports protection; \<open>ds1302_set_time\<close>
  succeeds with the eighth byte 0 on the wire; and \<open>ds1302_get_write_protect\<close> after it
  still reports protection.
\<close>

theorem set_time_write_protect_counterexample:
  "fst (ds1302_get_write_protect (world_presenting [0x80]) (Some example_dev) (Some False)) = ESP_OK \<and>
   fst (snd (ds1302_get_write_protect (world_presenting [0x80]) (Some example_dev) (Some False)))
     = Some True \<and>
   fst (ds1302_set_time (world_presenting [0x80]) (Some example_dev) (Some example_tm)) = ESP_OK \<and>
   tx_bytes example_dev (new_events (world_presenting [0x80])
       (snd (ds1302_set_time (world_presenting [0x80]) (Some example_dev) (Some example_tm)))) ! 8 = 0 \<and>
   fst (ds1302_get_write_protect
          (snd (ds1302_set_time (world_presenting [0x80]) (Some example_dev) (Some example_tm)))
          (Some example_dev) (Some False)) = ESP_OK \<and>
   fst (snd (ds1302_get_write_protect
          (snd (ds1302_set_time (world_presenting [0x80]) (Some example_dev) (Some example_tm)))
          (Some example_dev) (Some False))) = Some True"
  proof -
  let ?w = "world_presenting [0x80]"
  let ?a = "ds1302_get_write_protect ?w (Some example_dev) (Some False)"
  let ?s = "ds1302_set_time ?w (Some example_dev) (Some example_tm)"
  let ?b = "ds1302_get_write_protect (snd ?s) (Some example_dev) (Some False)"
  have pd: "pins_distinct example_dev" by code_simp
  have c: "bit (byte_of_bits (sampled 8 ?w)) 7" by code_simp
  have a: "fst ?a = ESP_OK" by code_simp
  then have "?a = (ESP_OK, fst (snd ?a), snd (snd ?a))" by (metis prod.collapse)
  from get_write_protect_ok [OF this] c have a': "fst (snd ?a) = Some True" by simp
  have s: "fst ?s = ESP_OK" by code_simp
  then have s': "?s = (ESP_OK, snd ?s)" by (metis prod.collapse)
  from set_time_ok(1) [OF pd s']
  have tx: "tx_bytes example_dev (new_events ?w (snd ?s)) ! 8 = 0"
    by (simp add: set_time_buf_def)
  from set_time_ok(2) [OF pd s'] have "sampled 8 (snd ?s) = sampled 8 ?w"
    by (simp add: sampled_def)
  with c have c': "bit (byte_of_bits (sampled 8 (snd ?s))) 7" by simp
  have b: "fst ?b = ESP_OK" by code_simp
  then have "?b = (ESP_OK, fst (snd ?b), snd (snd ?b))" by (metis prod.collapse)
  from get_write_protect_ok [OF this] c' have b': "fst (snd ?b) = Some True" by simp
  from a a' s tx b b' show ?thesis by blast
qed



lemma is_running_ok:
  assumes "ds1302_is_running w (Some dev) (Some r0) = (ESP_OK, devp', rp', w')"
  shows "devp' = Some (dev\<lparr>ch := bit (byte_of_bits (sampled 8 w)) 7\<rparr>)"
    and "rp' = Some (\<not> bit (byte_of_bits (sampled 8 w)) 7)"
    and "trace w' = trace w @ read_register_events dev CH_REG (sampled 8 w)"
proof -
  obtain e1 r w1 where s1: "read_register w dev CH_REG 0 = (e1, r, w1)" by (metis prod_cases3)
  with assms have ok1: "e1 = ESP_OK" and res: "w' = w1"
    "devp' = Some (dev\<lparr>ch := r AND CH_BIT \<noteq> 0\<rparr>)" "rp' = Some (\<not> (r AND CH_BIT \<noteq> 0))"
    by (auto simp: ds1302_is_running_def Let_def split: if_splits)
  note f1 = read_register_props [OF s1]
  from res f1(2) [OF ok1] show "devp' = Some (dev\<lparr>ch := bit (byte_of_bits (sampled 8 w)) 7\<rparr>)"
    by (simp add: test_top_bit)
  from res f1(2) [OF ok1] show "rp' = Some (\<not> bit (byte_of_bits (sampled 8 w)) 7)"
    by (simp add: test_top_bit)
  from res f1(4) [OF ok1] show "trace w' = trace w @ read_register_events dev CH_REG (sampled 8 w)"
    by simp
qed

lemma init_ok:
  assumes "ds1302_init w (Some dev) = (ESP_OK, devp', w')"
  shows "devp' = Some (dev\<lparr>ch := bit (byte_of_bits (sampled 8 w)) 7\<rparr>)"
    and "\<exists>w1. gpio_config w (GPIO_BIT (ce_pin dev) OR GPIO_BIT (io_pin dev) OR GPIO_BIT (sclk_pin dev))
                 GPIO_MODE_OUTPUT = (ESP_OK, w1) \<and>
               ds1302_is_running w1 (Some dev) (Some False) =
                 (ESP_OK, devp', Some (\<not> bit (byte_of_bits (sampled 8 w)) 7), w')"
proof -
  let ?m = "GPIO_BIT (ce_pin dev) OR GPIO_BIT (io_pin dev) OR GPIO_BIT (sclk_pin dev)"
  obtain e1 w1 where s1: "gpio_config w ?m GPIO_MODE_OUTPUT = (e1, w1)" by force
  obtain e2 d2 r2 w2 where s2: "ds1302_is_running w1 (Some dev) (Some False) = (e2, d2, r2, w2)"
    by (metis prod_cases4)
  from assms s1 s2 have ok: "e1 = ESP_OK" "e2 = ESP_OK" and res: "w' = w2"
    "devp' = map_option (\<lambda>d. d\<lparr>ch := \<not> (r2 = Some True)\<rparr>) d2"
    by (auto simp: ds1302_init_def split: if_splits)
  from s2 ok have s2': "ds1302_is_running w1 (Some dev) (Some False) = (ESP_OK, d2, r2, w2)" by simp
  note f2 = is_running_ok [OF s2']
  from s1 have "io_levels w1 = io_levels w"
    using gpio_call_props [of w _ e1 w1] by (simp add: gpio_config_def)
  then have sm: "sampled 8 w1 = sampled 8 w" by (simp add: sampled_def)
  from res f2(1,2) sm show d: "devp' = Some (dev\<lparr>ch := bit (byte_of_bits (sampled 8 w)) 7\<rparr>)"
    by auto
  from d f2(1) sm have "devp' = d2" by simp
  moreover from f2(2) sm have "r2 = Some (\<not> bit (byte_of_bits (sampled 8 w)) 7)" by simp
  moreover from s1 ok have "gpio_config w ?m GPIO_MODE_OUTPUT = (ESP_OK, w1)" by simp
  ultimately show "\<exists>w1. gpio_config w ?m GPIO_MODE_OUTPUT = (ESP_OK, w1) \<and>
      ds1302_is_running w1 (Some dev) (Some False) =
        (ESP_OK, devp', Some (\<not> bit (byte_of_bits (sampled 8 w)) 7), w')"
    using s2' res(1) by auto
qed

lemma start_ok:
  assumes "ds1302_start w (Some dev) start = (ESP_OK, devp', w')"
  shows "devp' = Some (dev\<lparr>ch := \<not> start\<rparr>)"
    and "trace w' = trace w @ read_register_events dev CH_REG (sampled 8 w) @
           write_register_events dev CH_REG
             ((byte_of_bits (sampled 8 w) AND CH_MASK) OR (if start then 0 else CH_BIT))"
proof -
  obtain e1 w1 where s1: "update_register w dev CH_REG CH_MASK (if start then 0 else CH_BIT) = (e1, w1)"
    by force
  with assms have ok: "e1 = ESP_OK" and res: "w' = w1" "devp' = Some (dev\<lparr>ch := \<not> start\<rparr>)"
    by (auto simp: ds1302_start_def split: if_splits)
  from res show "devp' = Some (dev\<lparr>ch := \<not> start\<rparr>)" by simp
  from s1 ok res have "update_register w dev CH_REG CH_MASK (if start then 0 else CH_BIT) = (ESP_OK, w')"
    by simp
  from update_register_ok(1) [OF this]
  show "trace w' = trace w @ read_register_events dev CH_REG (sampled 8 w) @
           write_register_events dev CH_REG
             ((byte_of_bits (sampled 8 w) AND CH_MASK) OR (if start then 0 else CH_BIT))" .
qed

lemma halt_update_all:
  "\<forall>cur \<in> set (map word_of_nat [0..<256]).
     bit (((cur :: u8) AND CH_MASK) OR CH_BIT) 7 \<and> \<not> bit ((cur AND CH_MASK) OR 0) 7 \<and>
     ((cur AND CH_MASK) OR CH_BIT) AND SECONDS_MASK = cur AND SECONDS_MASK \<and>
     ((cur AND CH_MASK) OR 0) AND SECONDS_MASK = cur AND SECONDS_MASK"
  by code_simp

lemma halt_update:
  "bit ((cur AND CH_MASK) OR (if start then 0 else CH_BIT)) 7 = (\<not> start)"
  "((cur AND CH_MASK) OR (if start then 0 else CH_BIT)) AND SECONDS_MASK = cur AND SECONDS_MASK"
proof -
  have "unat cur < 256" using unsigned_less [of cur] by simp
  from le_word_in_upt [OF this] halt_update_all
  have *: "bit ((cur AND CH_MASK) OR CH_BIT) 7 \<and> \<not> bit ((cur AND CH_MASK) OR 0) 7 \<and>
     ((cur AND CH_MASK) OR CH_BIT) AND SECONDS_MASK = cur AND SECONDS_MASK \<and>
     ((cur AND CH_MASK) OR 0) AND SECONDS_MASK = cur AND SECONDS_MASK"
    by blast
  from * show "bit ((cur AND CH_MASK) OR (if start then 0 else CH_BIT)) 7 = (\<not> start)"
    by (cases start) simp_all
  from * show "((cur AND CH_MASK) OR (if start then 0 else CH_BIT)) AND SECONDS_MASK = cur AND SECONDS_MASK"
    by (cases start) simp_all
qed

text \<open>
  Claim C8, as amended. Three operations store the cached flag \<open>ch\<close>, when they succeed.
  A successful \<open>ds1302_start\<close> reads the seconds register and writes it back with the halt
  bit set to the negation of its argument and the other seven bits as read (on the wire:
  \<open>CH_REG OR 1\<close>, then \<open>CH_REG\<close> and the new byte), and the flag is that negation. After a
  successful \<open>ds1302_is_running\<close> the flag is the top bit of the byte just sampled in a
  read of the seconds register, and the result is its negation. A successful
  \<open>ds1302_init\<close> configures the pins and leaves the handle as its call of
  \<open>ds1302_is_running\<close> left it.
\<close>

theorem cached_clock_halt_flag:
  "(ds1302_start w (Some dev) start = (ESP_OK, devp', w') \<longrightarrow>
      (let cur = byte_of_bits (sampled 8 w);
           new = (cur AND CH_MASK) OR (if start then 0 else CH_BIT)
       in devp' = Some (dev\<lparr>ch := \<not> start\<rparr>) \<and>
          (pins_distinct dev \<longrightarrow> tx_bytes dev (new_events w w') = [CH_REG OR 1, CH_REG, new]) \<and>
          bit new 7 = (\<not> start) \<and>
          new AND SECONDS_MASK = cur AND SECONDS_MASK)) \<and>
   (ds1302_is_running w (Some dev) (Some running) = (ESP_OK, devp', rp', w') \<longrightarrow>
      devp' = Some (dev\<lparr>ch := bit (byte_of_bits (sampled 8 w)) 7\<rparr>) \<and>
      rp' = Some (\<not> bit (byte_of_bits (sampled 8 w)) 7) \<and>
      (pins_distinct dev \<longrightarrow> tx_bytes dev (new_events w w') = [CH_REG OR 1])) \<and>
   (ds1302_init w (Some dev) = (ESP_OK, devp', w') \<longrightarrow>
      devp' = Some (dev\<lparr>ch := bit (byte_of_bits (sampled 8 w)) 7\<rparr>) \<and>
      (\<exists>w1. gpio_config w (GPIO_BIT (ce_pin dev) OR GPIO_BIT (io_pin dev) OR GPIO_BIT (sclk_pin dev))
               GPIO_MODE_OUTPUT = (ESP_OK, w1) \<and>
            ds1302_is_running w1 (Some dev) (Some False) =
              (ESP_OK, devp', Some (\<not> bit (byte_of_bits (sampled 8 w)) 7), w')))"
proof (intro conjI impI)
  assume s: "ds1302_start w (Some dev) start = (ESP_OK, devp', w')"
  let ?cur = "byte_of_bits (sampled 8 w)"
  let ?new = "(?cur AND CH_MASK) OR (if start then 0 else CH_BIT)"
  have "devp' = Some (dev\<lparr>ch := \<not> start\<rparr>)" using s by (rule start_ok(1))
  moreover have "tx_bytes dev (new_events w w') = [CH_REG OR 1, CH_REG, ?new]" if "pins_distinct dev"
    using start_ok(2) [OF s] that by (simp add: new_events_append wire_read_then_write)
  moreover note halt_update [of ?cur start]
  ultimately show "let cur = byte_of_bits (sampled 8 w);
           new = (cur AND CH_MASK) OR (if start then 0 else CH_BIT)
       in devp' = Some (dev\<lparr>ch := \<not> start\<rparr>) \<and>
          (pins_distinct dev \<longrightarrow> tx_bytes dev (new_events w w') = [CH_REG OR 1, CH_REG, new]) \<and>
          bit new 7 = (\<not> start) \<and>
          new AND SECONDS_MASK = cur AND SECONDS_MASK"
    unfolding Let_def by blast
next
  assume r: "ds1302_is_running w (Some dev) (Some running) = (ESP_OK, devp', rp', w')"
  from is_running_ok(1) [OF r] show "devp' = Some (dev\<lparr>ch := bit (byte_of_bits (sampled 8 w)) 7\<rparr>)" .
  from is_running_ok(2) [OF r] show "rp' = Some (\<not> bit (byte_of_bits (sampled 8 w)) 7)" .
  assume "pins_distinct dev"
  with is_running_ok(3) [OF r] show "tx_bytes dev (new_events w w') = [CH_REG OR 1]"
    by (simp add: new_events_append tx_read_register)
next
  assume i: "ds1302_init w (Some dev) = (ESP_OK, devp', w')"
  from init_ok(1) [OF i] show "devp' = Some (dev\<lparr>ch := bit (byte_of_bits (sampled 8 w)) 7\<rparr>)" .
  from init_ok(2) [OF i]
  show "\<exists>w1. gpio_config w (GPIO_BIT (ce_pin dev) OR GPIO_BIT (io_pin dev) OR GPIO_BIT (sclk_pin dev))
               GPIO_MODE_OUTPUT = (ESP_OK, w1) \<and>
            ds1302_is_running w1 (Some dev) (Some False) =
              (ESP_OK, devp', Some (\<not> bit (byte_of_bits (sampled 8 w)) 7), w')" .
qed

text \<open>
  Stopping the clock on a chip whose seconds register reads 0x05 sends 0x81, 0x80, 0x85
  and sets the flag; querying and initialising on a chip whose seconds register reads
  0x80 (halted) set the flag and report "not running".
\<close>

theorem cached_clock_halt_flag_witness:
  "pins_distinct example_dev \<and>
   ds1302_start (world_presenting [0x05]) (Some example_dev) False =
     (ESP_OK, Some (example_dev\<lparr>ch := True\<rparr>),
      snd (snd (ds1302_start (world_presenting [0x05]) (Some example_dev) False))) \<and>
   tx_bytes example_dev (new_events (world_presenting [0x05])
      (snd (snd (ds1302_start (world_presenting [0x05]) (Some example_dev) False)))) = [0x81, 0x80, 0x85] \<and>
   fst (ds1302_is_running (world_presenting [0x80]) (Some example_dev) (Some True)) = ESP_OK \<and>
   fst (snd (ds1302_is_running (world_presenting [0x80]) (Some example_dev) (Some True)))
     = Some (example_dev\<lparr>ch := True\<rparr>) \<and>
   fst (snd (snd (ds1302_is_running (world_presenting [0x80]) (Some example_dev) (Some True)))) = Some False \<and>
   fst (ds1302_init (world_presenting [0x80]) (Some example_dev)) = ESP_OK \<and>
   fst (snd (ds1302_init (world_presenting [0x80]) (Some example_dev))) = Some (example_dev\<lparr>ch := True\<rparr>)"
proof -
  let ?s = "ds1302_start (world_presenting [0x05]) (Some example_dev) False"
  let ?q = "ds1302_is_running (world_presenting [0x80]) (Some example_dev) (Some True)"
  let ?i = "ds1302_init (world_presenting [0x80]) (Some example_dev)"
  have pd: "pins_distinct example_dev" by code_simp
  have "fst ?s = ESP_OK" by code_simp
  then have s: "?s = (ESP_OK, fst (snd ?s), snd (snd ?s))" by (metis prod.collapse)
  have "fst ?q = ESP_OK" by code_simp
  then have q: "?q = (ESP_OK, fst (snd ?q), fst (snd (snd ?q)), snd (snd (snd ?q)))"
    by (metis prod.collapse)
  have "fst ?i = ESP_OK" by code_simp
  then have i: "?i = (ESP_OK, fst (snd ?i), snd (snd ?i))" by (metis prod.collapse)
  have c: "bit (byte_of_bits (sampled 8 (world_presenting [0x80]))) 7" by code_simp
  have c5: "(byte_of_bits (sampled 8 (world_presenting [0x05])) AND CH_MASK) OR CH_BIT = 0x85 \<and>
    CH_REG OR 1 = 0x81 \<and> CH_REG = 0x80"
    by code_simp
  from cached_clock_halt_flag [where w = "world_presenting [0x05]" and dev = example_dev
      and start = False and devp' = "fst (snd ?s)" and w' = "snd (snd ?s)"] s pd
  have "fst (snd ?s) = Some (example_dev\<lparr>ch := True\<rparr>)"
    and "tx_bytes example_dev (new_events (world_presenting [0x05]) (snd (snd ?s))) =
           [CH_REG OR 1, CH_REG, (byte_of_bits (sampled 8 (world_presenting [0x05])) AND CH_MASK) OR CH_BIT]"
    by (simp_all add: Let_def)
  with s have 1: "?s = (ESP_OK, Some (example_dev\<lparr>ch := True\<rparr>), snd (snd ?s))"
    and tx1: "tx_bytes example_dev (new_events (world_presenting [0x05]) (snd (snd ?s))) = [0x81, 0x80, 0x85]"
    using c5 by simp_all
  from cached_clock_halt_flag [where w = "world_presenting [0x80]" and dev = example_dev
      and running = True and devp' = "fst (snd ?q)" and rp' = "fst (snd (snd ?q))"
      and w' = "snd (snd (snd ?q))"] q c
  have 2: "fst (snd ?q) = Some (example_dev\<lparr>ch := True\<rparr>)" "fst (snd (snd ?q)) = Some False"
    by simp_all
  from cached_clock_halt_flag [where w = "world_presenting [0x80]" and dev = example_dev
      and devp' = "fst (snd ?i)" and w' = "snd (snd ?i)"] i c
  have 3: "fst (snd ?i) = Some (example_dev\<lparr>ch := True\<rparr>)" by simp
  from q i have "fst ?q = ESP_OK" "fst ?i = ESP_OK" by (metis fst_conv)+
  with pd 1 tx1 2 3 show ?thesis by blast
qed

text \<open>
  Claim C8 as it was stated, that the cached flag always reflects the chip state most
  recently observed or commanded, fails twice. \<open>ds1302_get_time\<close> on a halted chip
  (seconds byte 0xd6) succeeds and decodes 56 seconds from a byte whose halt bit is set,
  yet stores nothing to the handle, whose flag stays clear: the \<open>ds1302_set_time\<close> that
  follows sends the seconds byte 0x56, halt bit clear. And a \<open>ds1302_start\<close> to stop the
  clock whose last GPIO call (the 99th, \<open>chip_disable\<close> in \<open>write_register\<close>) fails has
  already sent 0x81, 0x80, 0x80, commanding the halt, and returns the error with the
  flag still clear.
\<close>

theorem cached_clock_halt_flag_counterexample:
  "\<not> ch example_dev \<and>
   bit (byte_of_bits (sampled 8 (world_presenting [0xd6, 0x34, 0x12, 0x25, 0x12, 0x06, 0x26]))) 7 \<and>
   fst (ds1302_get_time (world_presenting [0xd6, 0x34, 0x12, 0x25, 0x12, 0x06, 0x26])
          (Some example_dev) (Some zero_tm)) = ESP_OK \<and>
   map_option tm_sec (fst (snd (ds1302_get_time (world_presenting [0xd6, 0x34, 0x12, 0x25, 0x12, 0x06, 0x26])
          (Some example_dev) (Some zero_tm)))) = Some 56 \<and>
   fst (ds1302_set_time
          (snd (snd (ds1302_get_time (world_presenting [0xd6, 0x34, 0x12, 0x25, 0x12, 0x06, 0x26])
             (Some example_dev) (Some zero_tm))))
          (Some example_dev) (Some example_tm)) = ESP_OK \<and>
   tx_bytes example_dev (new_events
       (snd (snd (ds1302_get_time (world_presenting [0xd6, 0x34, 0x12, 0x25, 0x12, 0x06, 0x26])
             (Some example_dev) (Some zero_tm))))
       (snd (ds1302_set_time
          (snd (snd (ds1302_get_time (world_presenting [0xd6, 0x34, 0x12, 0x25, 0x12, 0x06, 0x26])
             (Some example_dev) (Some zero_tm))))
          (Some example_dev) (Some example_tm)))) ! 1 = 0x56 \<and>
   fst (ds1302_start (world_failing_after 98) (Some example_dev) False) = -1 \<and>
   fst (snd (ds1302_start (world_failing_after 98) (Some example_dev) False)) = Some example_dev \<and>
   tx_bytes example_dev (new_events (world_failing_after 98)
       (snd (snd (ds1302_start (world_failing_after 98) (Some example_dev) False)))) = [0x81, 0x80, 0x80]"
  proof -
  let ?w = "world_presenting [0xd6, 0x34, 0x12, 0x25, 0x12, 0x06, 0x26]"
  let ?g = "ds1302_get_time ?w (Some example_dev) (Some zero_tm)"
  let ?s = "ds1302_set_time (snd (snd ?g)) (Some example_dev) (Some example_tm)"
  let ?f = "ds1302_start (world_failing_after 98) (Some example_dev) False"
  have pd: "pins_distinct example_dev" by code_simp
  have h: "\<not> ch example_dev" by code_simp
  have c: "bit (byte_of_bits (sampled 8 ?w)) 7" by code_simp
  have g: "fst ?g = ESP_OK" by code_simp
  have sec: "map_option tm_sec (fst (snd ?g)) = Some 56" by code_simp
  have s: "fst ?s = ESP_OK" by code_simp
  then have "?s = (ESP_OK, snd ?s)" by (metis prod.collapse)
  from set_time_ok(1) [OF pd this]
  have "tx_bytes example_dev (new_events (snd (snd ?g)) (snd ?s)) ! 1 = hd (set_time_buf example_dev example_tm)"
    by (simp add: set_time_buf_def)
  also have "\<dots> = 0x56" by code_simp
  finally have tx: "tx_bytes example_dev (new_events (snd (snd ?g)) (snd ?s)) ! 1 = 0x56" .
  have f: "fst ?f = -1" by code_simp
  have f': "fst (snd ?f) = Some example_dev" by code_simp
  have ftx: "tx_bytes example_dev (new_events (world_failing_after 98) (snd (snd ?f))) = [0x81, 0x80, 0x80]"
    by code_simp
  from h c g sec s tx f f' ftx show ?thesis by blast
qed

end
